theory Spec2Isabelle
  imports Main "HOL-Library.Multiset"
begin

section \<open>The regex symbol compiler of DB: a shallow embedding of regex.c\<close>

text \<open>
  The development follows \<^verbatim>\<open>src/regex.h\<close> and \<^verbatim>\<open>src/regex.c\<close>. Every C function
  that is embedded keeps its name. Pointers to tree nodes become values of a datatype
  that carry the address \<^verbatim>\<open>malloc\<close> returned for the node; the doubly linked symbol
  list becomes a HOL list and a pointer to a symbol becomes its position in that list
  (symbols are only ever appended). \<^verbatim>\<open>malloc\<close> is a counter of fresh addresses with
  a budget: it returns \<^verbatim>\<open>NULL\<close> once the budget is used up.
\<close>

subsection \<open>Constants of the grammar syntax\<close>

abbreviation REGEX_PARSER_COMMENT :: char where "REGEX_PARSER_COMMENT \<equiv> CHR ''#''"
abbreviation REGEX_PARSER_LEXEME :: char where "REGEX_PARSER_LEXEME \<equiv> CHR ''@''"
abbreviation REGEX_PARSER_BRANCH_SEPARATOR :: char where "REGEX_PARSER_BRANCH_SEPARATOR \<equiv> CHR ''|''"
abbreviation REGEX_PARSER_GROUP_START :: char where "REGEX_PARSER_GROUP_START \<equiv> CHR ''(''"
abbreviation REGEX_PARSER_GROUP_END :: char where "REGEX_PARSER_GROUP_END \<equiv> CHR '')''"
abbreviation REGEX_PARSER_STATEMENT_END :: char where "REGEX_PARSER_STATEMENT_END \<equiv> CHR '';''"
abbreviation REGEX_PARSER_LITERAL :: char where "REGEX_PARSER_LITERAL \<equiv> CHR 0x22"
abbreviation REGEX_PARSER_ESCAPE :: char where "REGEX_PARSER_ESCAPE \<equiv> CHR 0x5C"
abbreviation REGEX_PARSER_LOOP :: char where "REGEX_PARSER_LOOP \<equiv> CHR ''*''"
abbreviation REGEX_PARSER_REFERENCE_PREFIX :: char where "REGEX_PARSER_REFERENCE_PREFIX \<equiv> CHR ''$''"
abbreviation REGEX_PARSER_RANGE_START :: char where "REGEX_PARSER_RANGE_START \<equiv> CHR ''[''"
abbreviation REGEX_PARSER_RANGE_SEPARATOR :: char where "REGEX_PARSER_RANGE_SEPARATOR \<equiv> CHR ''-''"
abbreviation REGEX_PARSER_RANGE_END :: char where "REGEX_PARSER_RANGE_END \<equiv> CHR '']''"

abbreviation NUL :: char where "NUL \<equiv> CHR 0x00"
abbreviation NEWLINE :: char where "NEWLINE \<equiv> CHR 0x0A"
abbreviation TAB :: char where "TAB \<equiv> CHR 0x09"

definition MAX_REGEX_SYMBOL_NAME_LENGTH :: nat where
  "MAX_REGEX_SYMBOL_NAME_LENGTH = 128"

subsection \<open>Expression trees and symbols (regex.h)\<close>

datatype regex_type =
    REGEX_TYPE_SEQUENCE
  | REGEX_TYPE_BRANCH
  | REGEX_TYPE_RANGE
  | REGEX_TYPE_LOOP
  | REGEX_TYPE_REFERENCE

text \<open>
  A \<^verbatim>\<open>struct regex_node\<close>. The first argument of every constructor is the address
  of the node; children are owned sub-terms; a reference holds the position of the
  symbol it points to, never the symbol's expression. The fields of a range are C
  \<^verbatim>\<open>int\<close>s.
\<close>

datatype regex_node =
    Sequence nat regex_node regex_node
  | Branch nat regex_node regex_node
  | Range nat int int
  | Loop nat regex_node
  | Reference nat nat

record regex_symbol =
  name :: string
  lexeme :: bool
  expression :: "regex_node option"

subsection \<open>The parser state\<close>

text \<open>
  \<^verbatim>\<open>struct regex_parser\<close>: \<open>len\<close> is \<open>length (buf p)\<close>. The symbol table, which the C
  code passes beside the parser, and the allocator are kept in the same record.
\<close>

record regex_parser =
  buf :: string
  pos :: nat
  error :: "string option"
  line :: int
  col :: int
  symbols :: "regex_symbol list"
  heap_next :: nat
  heap_left :: nat

text \<open>
  What a call can do besides returning: run out of the fuel that bounds the loops of the
  model, read the buffer at a position that is not below its length (the assertion of
  \<^verbatim>\<open>parser_peek\<close> and \<^verbatim>\<open>parser_skip\<close> fails, or the byte behind the buffer is read),
  or dereference \<^verbatim>\<open>NULL\<close>.
\<close>

datatype 'a outcome =
    OutOfFuel
  | ReadPastEnd
  | NullDereference
  | Return 'a regex_parser

fun and_then :: "'a outcome \<Rightarrow> ('a \<Rightarrow> regex_parser \<Rightarrow> 'b outcome) \<Rightarrow> 'b outcome" where
  "and_then OutOfFuel f = OutOfFuel"
| "and_then ReadPastEnd f = ReadPastEnd"
| "and_then NullDereference f = NullDereference"
| "and_then (Return x p) f = f x p"

definition malloc :: "regex_parser \<Rightarrow> nat option \<times> regex_parser" where
  "malloc p =
     (if heap_left p = 0 then (None, p)
      else (Some (heap_next p), p\<lparr>heap_next := heap_next p + 1, heap_left := heap_left p - 1\<rparr>))"

definition parser_ok :: "regex_parser \<Rightarrow> bool" where
  "parser_ok p = (error p = None)"

definition parser_error :: "regex_parser \<Rightarrow> string \<Rightarrow> regex_parser" where
  "parser_error p msg = p\<lparr>error := Some msg\<rparr>"

definition parser_has_more :: "regex_parser \<Rightarrow> bool" where
  "parser_has_more p = (pos p \<noteq> length (buf p))"

definition is_whitespace :: "char \<Rightarrow> bool" where
  "is_whitespace c = (c = CHR '' '' \<or> c = TAB \<or> c = NEWLINE)"

definition is_newline :: "char \<Rightarrow> bool" where
  "is_newline c = (c = NEWLINE)"

text \<open>\<^verbatim>\<open>isalpha\<close> and \<^verbatim>\<open>isdigit\<close> in the C locale.\<close>

definition isalpha :: "char \<Rightarrow> bool" where
  "isalpha c = (let n = (of_char c :: nat) in (65 \<le> n \<and> n \<le> 90) \<or> (97 \<le> n \<and> n \<le> 122))"

definition isdigit :: "char \<Rightarrow> bool" where
  "isdigit c = (let n = (of_char c :: nat) in 48 \<le> n \<and> n \<le> 57)"

definition is_identifier :: "char \<Rightarrow> bool" where
  "is_identifier c = (isalpha c \<or> isdigit c \<or> c = CHR ''_'')"

definition is_literal :: "char \<Rightarrow> bool" where
  "is_literal c = (c = REGEX_PARSER_LITERAL)"

text \<open>The value of a (signed) \<^verbatim>\<open>char\<close> as an \<^verbatim>\<open>int\<close>.\<close>

definition char_to_int :: "char \<Rightarrow> int" where
  "char_to_int c = (if (of_char c :: int) < 128 then of_char c else of_char c - 256)"

definition parser_peek :: "regex_parser \<Rightarrow> char outcome" where
  "parser_peek p =
     (if pos p < length (buf p) then Return (buf p ! pos p) p else ReadPastEnd)"

definition parser_skip :: "regex_parser \<Rightarrow> unit outcome" where
  "parser_skip p =
     (if pos p < length (buf p) then
        Return ()
          (if is_newline (buf p ! pos p)
           then p\<lparr>line := line p + 1, col := 1, pos := pos p + 1\<rparr>
           else p\<lparr>col := col p + 1, pos := pos p + 1\<rparr>)
      else ReadPastEnd)"

function parser_skip_while :: "(char \<Rightarrow> bool) \<Rightarrow> regex_parser \<Rightarrow> unit outcome" where
  "parser_skip_while pred p =
     (if parser_has_more p then
        (case parser_peek p of
           Return c p1 \<Rightarrow>
             if \<not> pred c then Return () p
             else (case parser_skip p of
                     Return u p2 \<Rightarrow> parser_skip_while pred p2
                   | OutOfFuel \<Rightarrow> OutOfFuel
                   | ReadPastEnd \<Rightarrow> ReadPastEnd
                   | NullDereference \<Rightarrow> NullDereference)
         | OutOfFuel \<Rightarrow> OutOfFuel
         | ReadPastEnd \<Rightarrow> ReadPastEnd
         | NullDereference \<Rightarrow> NullDereference)
      else Return () p)"
  by pat_completeness auto
termination
  by (relation "measure (\<lambda>(pred, p). length (buf p) - pos p)")
     (auto simp: parser_skip_def parser_peek_def split: if_splits)

function parser_skip_until :: "(char \<Rightarrow> bool) \<Rightarrow> regex_parser \<Rightarrow> unit outcome" where
  "parser_skip_until pred p =
     (if parser_has_more p then
        (case parser_peek p of
           Return c p1 \<Rightarrow>
             if pred c then Return () p
             else (case parser_skip p of
                     Return u p2 \<Rightarrow> parser_skip_until pred p2
                   | OutOfFuel \<Rightarrow> OutOfFuel
                   | ReadPastEnd \<Rightarrow> ReadPastEnd
                   | NullDereference \<Rightarrow> NullDereference)
         | OutOfFuel \<Rightarrow> OutOfFuel
         | ReadPastEnd \<Rightarrow> ReadPastEnd
         | NullDereference \<Rightarrow> NullDereference)
      else Return () p)"
  by pat_completeness auto
termination
  by (relation "measure (\<lambda>(pred, p). length (buf p) - pos p)")
     (auto simp: parser_skip_def parser_peek_def split: if_splits)

definition parser_skip_whitespace :: "regex_parser \<Rightarrow> unit outcome" where
  "parser_skip_whitespace p = parser_skip_while is_whitespace p"

definition parser_skip_comment :: "regex_parser \<Rightarrow> unit outcome" where
  "parser_skip_comment p =
     and_then (parser_skip p) (\<lambda>u p1.
     and_then (parser_skip_until is_newline p1) (\<lambda>u p2.
       if parser_has_more p2 then parser_skip p2 else Return () p2))"

definition parser_pos :: "regex_parser \<Rightarrow> nat" where
  "parser_pos p = pos p"

text \<open>
  \<^verbatim>\<open>parser_at\<close> followed by a read of \<open>len\<close> bytes: the slice of the buffer that
  starts at \<open>start\<close>. \<^verbatim>\<open>parser_copy_string\<close> stores it as a C string, which ends at the
  first NUL byte.
\<close>

definition parser_at :: "regex_parser \<Rightarrow> nat \<Rightarrow> nat \<Rightarrow> string" where
  "parser_at p start len = take len (drop start (buf p))"

definition parser_copy_string :: "regex_parser \<Rightarrow> nat \<Rightarrow> nat \<Rightarrow> string" where
  "parser_copy_string p start len = takeWhile (\<lambda>c. c \<noteq> NUL) (parser_at p start len)"

subsection \<open>The symbol table\<close>

text \<open>
  \<^verbatim>\<open>regex_symbol_name_eq(left, right, len)\<close>: \<open>left\<close> is the stored, NUL-terminated
  name (its bytes before the terminator), \<open>right\<close> the \<open>len\<close> bytes of the reference.
\<close>

fun regex_symbol_name_eq :: "string \<Rightarrow> string \<Rightarrow> bool" where
  "regex_symbol_name_eq [] right = (right = [])"
| "regex_symbol_name_eq (l # left) [] = False"
| "regex_symbol_name_eq (l # left) (r # right) =
     (if l \<noteq> r then False else regex_symbol_name_eq left right)"

text \<open>The search loop of \<^verbatim>\<open>get_or_create_regex_symbol\<close> (from \<^verbatim>\<open>symbols->head\<close>).\<close>

fun lookup_regex_symbol :: "regex_symbol list \<Rightarrow> string \<Rightarrow> nat option" where
  "lookup_regex_symbol [] nm = None"
| "lookup_regex_symbol (s # ss) nm =
     (if regex_symbol_name_eq (name s) nm then Some 0
      else map_option Suc (lookup_regex_symbol ss nm))"

definition get_or_create_regex_symbol ::
  "regex_parser \<Rightarrow> nat \<Rightarrow> nat \<Rightarrow> nat option \<times> regex_parser" where
  "get_or_create_regex_symbol p name_start name_len =
     (if name_len + 1 > MAX_REGEX_SYMBOL_NAME_LENGTH
      then (None, parser_error p ''reference name too long'')
      else
        (case lookup_regex_symbol (symbols p) (parser_at p name_start name_len) of
           Some i \<Rightarrow> (Some i, p)
         | None \<Rightarrow>
             (case malloc p of
                (None, p1) \<Rightarrow> (None, p1)
              | (Some a, p1) \<Rightarrow>
                  (Some (length (symbols p1)),
                   p1\<lparr>symbols := symbols p1 @
                        [\<lparr>name = parser_copy_string p1 name_start name_len,
                          lexeme = False, expression = None\<rparr>]\<rparr>))))"

text \<open>
  \<^verbatim>\<open>check_regex_symbols\<close> returns 0 (\<open>None\<close> here) or logs the name of the first
  symbol without an expression and returns -1 (\<open>Some\<close> of that name).
\<close>

fun check_regex_symbols :: "regex_symbol list \<Rightarrow> string option" where
  "check_regex_symbols [] = None"
| "check_regex_symbols (s # ss) =
     (if expression s = None then Some (name s) else check_regex_symbols ss)"

subsection \<open>Destruction\<close>

text \<open>The functions return the addresses passed to \<^verbatim>\<open>free\<close>, in order.\<close>

fun destroy_regex_node :: "regex_node \<Rightarrow> nat list" where
  "destroy_regex_node (Sequence a l r) = destroy_regex_node l @ destroy_regex_node r @ [a]"
| "destroy_regex_node (Branch a l r) = destroy_regex_node l @ destroy_regex_node r @ [a]"
| "destroy_regex_node (Loop a b) = destroy_regex_node b @ [a]"
| "destroy_regex_node (Range a s e) = [a]"
| "destroy_regex_node (Reference a s) = [a]"

text \<open>The body of \<^verbatim>\<open>destroy_regex_symbol\<close> is a single assertion.\<close>

definition destroy_regex_symbol :: "regex_symbol \<Rightarrow> nat list" where
  "destroy_regex_symbol s = []"

fun destroy_regex_symbols :: "regex_symbol list \<Rightarrow> nat list" where
  "destroy_regex_symbols [] = []"
| "destroy_regex_symbols (s # ss) = destroy_regex_symbol s @ destroy_regex_symbols ss"

subsection \<open>Trees under construction\<close>

text \<open>
  \<^verbatim>\<open>struct regex_tree\<close> holds the root and the rightmost node (\<open>leaf\<close>) of a chain
  that grows to the right. Every inner node of the chain was created by
  \<^verbatim>\<open>add_to_regex_tree\<close> with, as left child, the node that was the leaf then. The
  \<open>spine\<close> lists these inner nodes from the root downwards, each with its type,
  address and left child; the root is the spine closed by the leaf.
\<close>

record regex_tree =
  spine :: "(regex_type \<times> nat \<times> regex_node) list"
  leaf :: "regex_node option"

definition empty_regex_tree :: regex_tree where
  "empty_regex_tree = \<lparr>spine = [], leaf = None\<rparr>"

fun close_spine :: "(regex_type \<times> nat \<times> regex_node) list \<Rightarrow> regex_node \<Rightarrow> regex_node" where
  "close_spine [] n = n"
| "close_spine ((t, a, l) # sp) n =
     (if t = REGEX_TYPE_BRANCH then Branch a l (close_spine sp n)
      else Sequence a l (close_spine sp n))"

definition tree_root :: "regex_tree \<Rightarrow> regex_node option" where
  "tree_root tree = map_option (close_spine (spine tree)) (leaf tree)"

definition create_regex_node :: "regex_parser \<Rightarrow> nat option \<times> regex_parser" where
  "create_regex_node p = malloc p"

definition add_to_regex_tree ::
  "regex_tree \<Rightarrow> regex_type \<Rightarrow> regex_node \<Rightarrow> regex_parser \<Rightarrow> regex_tree option \<times> regex_parser" where
  "add_to_regex_tree tree type node p =
     (case leaf tree of
        None \<Rightarrow> (Some (tree\<lparr>leaf := Some node\<rparr>), p)
      | Some l \<Rightarrow>
          (case create_regex_node p of
             (None, p1) \<Rightarrow> (None, p1)
           | (Some a, p1) \<Rightarrow>
               (Some \<lparr>spine = spine tree @ [(type, a, l)], leaf = Some node\<rparr>, p1)))"

subsection \<open>The recursive-descent parser\<close>

text \<open>
  Every loop and every recursive call of the parser consumes one unit of fuel; a
  function that returns a node pointer returns \<open>None\<close> for \<^verbatim>\<open>NULL\<close>. The calls of
  \<^verbatim>\<open>free\<close> on the error paths do not change what the parser returns and are left out.
\<close>

fun parse_literal_loop ::
  "nat \<Rightarrow> regex_tree \<Rightarrow> bool \<Rightarrow> regex_parser \<Rightarrow> regex_node option outcome" where
  "parse_literal_loop 0 tree escaped p = OutOfFuel"
| "parse_literal_loop (Suc n) tree escaped p =
     (if \<not> parser_has_more p
      then Return None (parser_error p ''expected literal delimiter'')
      else and_then (parser_peek p) (\<lambda>c p1.
        if c = REGEX_PARSER_ESCAPE then parse_literal_loop n tree True p1
        else if \<not> escaped \<and> c = REGEX_PARSER_LITERAL
        then and_then (parser_skip p1) (\<lambda>u p2. Return (tree_root tree) p2)
        else
          (case create_regex_node p1 of
             (None, p2) \<Rightarrow> Return None p2
           | (Some a, p2) \<Rightarrow>
               (case add_to_regex_tree tree REGEX_TYPE_SEQUENCE
                       (Range a (char_to_int c) (char_to_int c + 1)) p2 of
                  (None, p3) \<Rightarrow> Return None p3
                | (Some tree', p3) \<Rightarrow>
                    and_then (parser_skip p3) (\<lambda>u p4.
                      parse_literal_loop n tree' False p4)))))"

definition parse_literal :: "nat \<Rightarrow> regex_parser \<Rightarrow> regex_node option outcome" where
  "parse_literal n p =
     and_then (parser_skip p) (\<lambda>u p1. parse_literal_loop n empty_regex_tree False p1)"

definition parse_regex_range_bound :: "regex_parser \<Rightarrow> char option outcome" where
  "parse_regex_range_bound p =
     (if \<not> parser_has_more p
      then Return None
             (parser_error p ''unexpected end of file, expected character range bound'')
      else and_then (parser_peek p) (\<lambda>c p1.
           and_then (parser_skip p1) (\<lambda>u p2.
             if c = REGEX_PARSER_ESCAPE then
               (if \<not> parser_has_more p2
                then Return None
                       (parser_error p2
                          ''unexpected end of file, expected escaped character bound'')
                else and_then (parser_peek p2) (\<lambda>c' p3.
                     and_then (parser_skip p3) (\<lambda>u p4. Return (Some c') p4)))
             else if c = REGEX_PARSER_RANGE_END
             then Return None
                    (parser_error p2 ''invalid character, expected character range bound'')
             else Return (Some c) p2)))"

definition parse_regex_range :: "regex_parser \<Rightarrow> regex_node option outcome" where
  "parse_regex_range p =
     and_then (parser_skip p) (\<lambda>u p1.
     and_then (parser_skip_whitespace p1) (\<lambda>u p2.
     and_then (parse_regex_range_bound p2) (\<lambda>start p3.
       case start of
         None \<Rightarrow> Return None p3
       | Some s \<Rightarrow>
     and_then (parser_skip_whitespace p3) (\<lambda>u p4.
       if \<not> parser_has_more p4
       then Return None (parser_error p4 ''unexpected end of file, expected range separator'')
       else
     and_then (parser_peek p4) (\<lambda>c p5.
       if c \<noteq> REGEX_PARSER_RANGE_SEPARATOR
       then Return None (parser_error p5 ''unexpected character, expected range separator'')
       else
     and_then (parser_skip p5) (\<lambda>u p6.
     and_then (parser_skip_whitespace p6) (\<lambda>u p7.
     and_then (parse_regex_range_bound p7) (\<lambda>end' p8.
       case end' of
         None \<Rightarrow> Return None p8
       | Some e \<Rightarrow>
     and_then (parser_skip_whitespace p8) (\<lambda>u p9.
       if \<not> parser_has_more p9
       then Return None (parser_error p9 ''unexpected end of file, expected range separator'')
       else
     and_then (parser_peek p9) (\<lambda>c' p10.
       if c' \<noteq> REGEX_PARSER_RANGE_END
       then Return None (parser_error p10 ''unexpected character, expected range separator'')
       else
     and_then (parser_skip p10) (\<lambda>u p11.
       case create_regex_node p11 of
         (None, p12) \<Rightarrow> Return None (parser_error p12 ''could not create range node'')
       | (Some a, p12) \<Rightarrow>
           Return (Some (Range a (char_to_int s) (char_to_int e))) p12)))))))))))"

definition parse_regex_reference :: "regex_parser \<Rightarrow> regex_node option outcome" where
  "parse_regex_reference p =
     and_then (parser_skip p) (\<lambda>u p1.
       if \<not> parser_has_more p1
       then Return None
              (parser_error p1 ''unexpected end of file, expected literal or expression end'')
       else
         (let start = parser_pos p1 in
          and_then (parser_skip_while is_identifier p1) (\<lambda>u p2.
            let len = parser_pos p2 - start in
            case get_or_create_regex_symbol p2 start len of
              (None, p3) \<Rightarrow> Return None (parser_error p3 ''symbol creation failed'')
            | (Some symbol, p3) \<Rightarrow>
                (case create_regex_node p3 of
                   (None, p4) \<Rightarrow>
                     Return None (parser_error p4 ''reference node creation failed'')
                 | (Some a, p4) \<Rightarrow> Return (Some (Reference a symbol)) p4))))"

fun parse_regex_group :: "nat \<Rightarrow> regex_parser \<Rightarrow> regex_node option outcome"
  and parse_regex_expression :: "nat \<Rightarrow> regex_parser \<Rightarrow> regex_node option outcome"
  and parse_regex_loop :: "nat \<Rightarrow> regex_parser \<Rightarrow> regex_node option outcome"
  and parse_regex_sequence_loop ::
        "nat \<Rightarrow> regex_tree \<Rightarrow> regex_parser \<Rightarrow> regex_node option outcome"
  and parse_regex_branch_loop ::
        "nat \<Rightarrow> regex_tree \<Rightarrow> regex_parser \<Rightarrow> regex_node option outcome"
where
  "parse_regex_group 0 p = OutOfFuel"
| "parse_regex_group (Suc n) p =
     and_then (parser_skip p) (\<lambda>u p1.
     and_then (parse_regex_branch_loop n empty_regex_tree p1) (\<lambda>branch p2.
       case branch of
         None \<Rightarrow> Return None p2
       | Some b \<Rightarrow>
           and_then (parser_skip_whitespace p2) (\<lambda>u p3.
             if \<not> parser_has_more p3
             then Return None
                    (parser_error p3 ''unexpected end of file, expected statement end'')
             else and_then (parser_peek p3) (\<lambda>c p4.
               if c \<noteq> REGEX_PARSER_GROUP_END
               then Return None
                      (parser_error p4 ''unexpected character, expected statement end'')
               else and_then (parser_skip p4) (\<lambda>u p5. Return (Some b) p5)))))"
| "parse_regex_expression 0 p = OutOfFuel"
| "parse_regex_expression (Suc n) p =
     (if \<not> parser_has_more p
      then Return None
             (parser_error p ''unexpected end of file, expected literal or expression end'')
      else and_then (parser_peek p) (\<lambda>c p1.
        if c = REGEX_PARSER_LITERAL then parse_literal n p1
        else if c = REGEX_PARSER_REFERENCE_PREFIX then parse_regex_reference p1
        else if c = REGEX_PARSER_GROUP_START then parse_regex_group n p1
        else if c = REGEX_PARSER_RANGE_START then parse_regex_range p1
        else Return None
               (parser_error p1
                  ''unexpected character, expected literal, group or statement end'')))"
| "parse_regex_loop 0 p = OutOfFuel"
| "parse_regex_loop (Suc n) p =
     and_then (parse_regex_expression n p) (\<lambda>body p1.
       case body of
         None \<Rightarrow> Return None p1
       | Some b \<Rightarrow>
           if \<not> parser_has_more p1
           then Return None
                  (parser_error p1
                     ''unexpected end of file, expected expression or statement end'')
           else and_then (parser_skip_whitespace p1) (\<lambda>u p2.
                and_then (parser_peek p2) (\<lambda>c p3.
                  if c = REGEX_PARSER_LOOP then
                    and_then (parser_skip p3) (\<lambda>u p4.
                      case create_regex_node p4 of
                        (None, p5) \<Rightarrow> Return None p5
                      | (Some a, p5) \<Rightarrow> Return (Some (Loop a b)) p5)
                  else Return (Some b) p3)))"
| "parse_regex_sequence_loop 0 tree p = OutOfFuel"
| "parse_regex_sequence_loop (Suc n) tree p =
     (if \<not> parser_has_more p
      then Return None
             (parser_error p
                ''unexpected end of file, expected loop, expression or statement end'')
      else and_then (parser_peek p) (\<lambda>c p1.
        if c = REGEX_PARSER_STATEMENT_END \<or> c = REGEX_PARSER_GROUP_END
           \<or> c = REGEX_PARSER_BRANCH_SEPARATOR
        then Return (tree_root tree) p1
        else and_then (parse_regex_loop n p1) (\<lambda>node p2.
          case node of
            None \<Rightarrow> Return None p2
          | Some nd \<Rightarrow>
              (case add_to_regex_tree tree REGEX_TYPE_SEQUENCE nd p2 of
                 (None, p3) \<Rightarrow>
                   Return None (parser_error p3 ''could not add element to sequence'')
               | (Some tree', p3) \<Rightarrow>
                   and_then (parser_skip_whitespace p3) (\<lambda>u p4.
                     parse_regex_sequence_loop n tree' p4)))))"
| "parse_regex_branch_loop 0 tree p = OutOfFuel"
| "parse_regex_branch_loop (Suc n) tree p =
     (if \<not> parser_has_more p
      then Return None
             (parser_error p
                ''unexpected end of file, expected sequence, loop, expression or statement end'')
      else and_then (parser_peek p) (\<lambda>c p1.
        if c = REGEX_PARSER_STATEMENT_END \<or> c = REGEX_PARSER_GROUP_END
        then Return (tree_root tree) p1
        else and_then (parse_regex_sequence_loop n empty_regex_tree p1) (\<lambda>node p2.
          case node of
            None \<Rightarrow> Return None p2
          | Some nd \<Rightarrow>
              (case add_to_regex_tree tree REGEX_TYPE_BRANCH nd p2 of
                 (None, p3) \<Rightarrow>
                   Return None (parser_error p3 ''could not add branch to tree'')
               | (Some tree', p3) \<Rightarrow>
                   if \<not> parser_has_more p3
                   then Return None
                          (parser_error p3
                             ''unexpected end of file, expected branch delimiter or statement end'')
                   else and_then (parser_peek p3) (\<lambda>c' p4.
                     if c' \<noteq> REGEX_PARSER_BRANCH_SEPARATOR
                     then Return (tree_root tree') p4
                     else and_then (parser_skip p4) (\<lambda>u p5.
                          and_then (parser_skip_whitespace p5) (\<lambda>u p6.
                            parse_regex_branch_loop n tree' p6)))))))"

definition parse_regex_sequence :: "nat \<Rightarrow> regex_parser \<Rightarrow> regex_node option outcome" where
  "parse_regex_sequence n p = parse_regex_sequence_loop n empty_regex_tree p"

definition parse_regex_branch :: "nat \<Rightarrow> regex_parser \<Rightarrow> regex_node option outcome" where
  "parse_regex_branch n p = parse_regex_branch_loop n empty_regex_tree p"

definition parse_regex_statement :: "nat \<Rightarrow> regex_parser \<Rightarrow> regex_node option outcome" where
  "parse_regex_statement n p =
     and_then (parse_regex_branch n p) (\<lambda>branch p1.
       case branch of
         None \<Rightarrow> Return None p1
       | Some b \<Rightarrow>
           and_then (parser_skip_whitespace p1) (\<lambda>u p2.
             if \<not> parser_has_more p2
             then Return None
                    (parser_error p2 ''unexpected end of file, expected statement end'')
             else and_then (parser_peek p2) (\<lambda>c p3.
               if c \<noteq> REGEX_PARSER_STATEMENT_END
               then Return None
                      (parser_error p3 ''unexpected character, expected statement end'')
               else and_then (parser_skip p3) (\<lambda>u p4. Return (Some b) p4))))"

text \<open>
  \<^verbatim>\<open>parse_symbol\<close> returns 0 or -1. The symbol is addressed by its position \<open>i\<close>,
  which stays valid while the statement is parsed (references only append symbols).
\<close>

definition unexpected_end_message :: string where
  "unexpected_end_message =
     ''unexpected end, expected symbol definition or '' @ [CHR 0x27, CHR '';'', CHR 0x27]"

definition parse_symbol :: "nat \<Rightarrow> regex_parser \<Rightarrow> int outcome" where
  "parse_symbol n p =
     and_then (parser_peek p) (\<lambda>c p0.
     and_then (if c = REGEX_PARSER_LEXEME
               then and_then (parser_skip p0) (\<lambda>u p1. Return True p1)
               else Return False p0) (\<lambda>lex p1.
       let name_start = parser_pos p1 in
     and_then (parser_skip_while is_identifier p1) (\<lambda>u p2.
       let name_len = parser_pos p2 - name_start in
       case get_or_create_regex_symbol p2 name_start name_len of
         (None, p3) \<Rightarrow> Return (- 1) p3
       | (Some i, p3) \<Rightarrow>
           if expression (symbols p3 ! i) \<noteq> None
           then Return (- 1) (parser_error p3 ''multiple definitions for symbol'')
           else
             (let p4 = p3\<lparr>symbols := (symbols p3)[i := (symbols p3 ! i)\<lparr>lexeme := lex\<rparr>]\<rparr> in
     and_then (parser_skip_whitespace p4) (\<lambda>u p5.
       if \<not> parser_has_more p5
       then Return (- 1) (parser_error p5 unexpected_end_message)
       else
     and_then (parser_peek p5) (\<lambda>c' p6.
     and_then (if c' = REGEX_PARSER_COMMENT
               then and_then (parser_skip_comment p6) (\<lambda>u p7. parser_skip_whitespace p7)
               else Return () p6) (\<lambda>u p8.
       if \<not> parser_has_more p8
       then Return (- 1) (parser_error p8 unexpected_end_message)
       else
     and_then (parse_regex_statement n p8) (\<lambda>expr p9.
       case expr of
         None \<Rightarrow> Return (- 1) p9
       | Some e \<Rightarrow>
           Return 0
             (p9\<lparr>symbols :=
                   (symbols p9)[i := (symbols p9 ! i)\<lparr>expression := Some e\<rparr>]\<rparr>)))))))))"

text \<open>
  \<^verbatim>\<open>read_regex_file\<close> with the file already read: the parser it sets up over the
  bytes of the file. \<open>budget\<close> is the number of allocations that will succeed.
\<close>

definition read_regex_file :: "nat \<Rightarrow> string \<Rightarrow> regex_parser" where
  "read_regex_file budget file =
     \<lparr>buf = file, pos = 0, error = None, line = 1, col = 1, symbols = [],
      heap_next = 0, heap_left = budget\<rparr>"

fun parse_regex_symbols_loop :: "nat \<Rightarrow> regex_parser \<Rightarrow> unit outcome" where
  "parse_regex_symbols_loop 0 p = OutOfFuel"
| "parse_regex_symbols_loop (Suc n) p =
     (if \<not> parser_has_more p then Return () p
      else and_then (parser_skip_whitespace p) (\<lambda>u p1.
           and_then (parser_peek p1) (\<lambda>c p2.
             if c = REGEX_PARSER_COMMENT
             then and_then (parser_skip_comment p2) (\<lambda>u p3. parse_regex_symbols_loop n p3)
             else and_then (parse_symbol n p2) (\<lambda>r p3.
               if r \<noteq> 0 then Return () p3 else parse_regex_symbols_loop n p3))))"

text \<open>
  \<^verbatim>\<open>parse_regex_symbols\<close>: the table is allocated and written to before it is
  compared with \<^verbatim>\<open>NULL\<close>. The result is the table, or \<open>None\<close> for \<^verbatim>\<open>NULL\<close>.
\<close>

definition parse_regex_symbols :: "nat \<Rightarrow> nat \<Rightarrow> string \<Rightarrow> regex_symbol list option outcome" where
  "parse_regex_symbols n budget file =
     (case malloc (read_regex_file budget file) of
        (None, p1) \<Rightarrow> NullDereference
      | (Some a, p1) \<Rightarrow>
          and_then (parse_regex_symbols_loop n p1) (\<lambda>u p2.
            if \<not> parser_ok p2 then Return None p2
            else if check_regex_symbols (symbols p2) \<noteq> None then Return None p2
            else Return (Some (symbols p2)) p2))"

subsection \<open>The automaton (regex.h) and its builder\<close>

text \<open>
  A \<^verbatim>\<open>struct regex_state\<close>; the fields \<^verbatim>\<open>then\<close> and \<^verbatim>\<open>end\<close> are called
  \<open>then_state\<close> and \<open>end_symbol\<close>. A field is \<open>None\<close> until a value is stored into
  it: \<^verbatim>\<open>add_regex_state\<close> hands out the slot as \<^verbatim>\<open>realloc\<close> left it.
  \<open>lower\<close> and \<open>upper\<close> are \<^verbatim>\<open>char\<close>s, documented as the inclusive lower and the
  exclusive upper bound of a match.
\<close>

record regex_state =
  lower :: "int option"
  upper :: "int option"
  then_state :: "nat option"
  otherwise :: "nat option"
  end_symbol :: "int option"

text \<open>
  A \<^verbatim>\<open>struct regex_nfa\<close>: \<open>states\<close> are the first \<^verbatim>\<open>len\<close> slots of the buffer,
  \<open>nfa_size\<close> is \<^verbatim>\<open>size\<close>, \<open>nfa_symbols\<close> the array of names and \<open>symbols_len\<close>
  their number.
\<close>

record regex_nfa =
  states :: "regex_state list"
  nfa_size :: nat
  nfa_symbols :: "string list"
  symbols_len :: nat

definition INITIAL_REGEX_NFA_BUFFER_SIZE :: nat where
  "INITIAL_REGEX_NFA_BUFFER_SIZE = 32"

definition fresh_regex_state :: regex_state where
  "fresh_regex_state =
     \<lparr>lower = None, upper = None, then_state = None, otherwise = None, end_symbol = None\<rparr>"

text \<open>The conversion of an \<^verbatim>\<open>int\<close> to a (signed, 8 bit) \<^verbatim>\<open>char\<close>.\<close>

definition int_to_char :: "int \<Rightarrow> int" where
  "int_to_char x = (x + 128) mod 256 - 128"

text \<open>
  The builder functions take the automaton and the number \<open>heap\<close> of allocations that
  will still succeed. \<^verbatim>\<open>add_regex_state\<close> returns the new state's index, or \<open>None\<close>
  for -1.
\<close>

definition add_regex_state :: "regex_nfa \<Rightarrow> nat \<Rightarrow> nat option \<times> regex_nfa \<times> nat" where
  "add_regex_state nfa heap =
     (if length (states nfa) = nfa_size nfa then
        (let nsize = (if nfa_size nfa = 0 then INITIAL_REGEX_NFA_BUFFER_SIZE
                      else nfa_size nfa * 2)
         in if heap = 0 then (None, nfa, heap)
            else (Some (length (states nfa)),
                  nfa\<lparr>states := states nfa @ [fresh_regex_state], nfa_size := nsize\<rparr>,
                  heap - 1))
      else (Some (length (states nfa)),
            nfa\<lparr>states := states nfa @ [fresh_regex_state]\<rparr>, heap))"

text \<open>
  The result of a builder: the return code, the automaton, the heap and the two output
  parameters \<^verbatim>\<open>*first\<close> and \<^verbatim>\<open>*last\<close> (\<open>None\<close> while nothing was stored in them),
  or undefined behaviour: a state addressed through a variable that was never
  assigned, or through a pointer into a buffer that \<^verbatim>\<open>realloc\<close> has replaced.
\<close>

datatype build_result =
    Undefined_Behaviour
  | Built int regex_nfa nat "nat option" "nat option"

definition build_regex_sequence_nfa ::
  "regex_nfa \<Rightarrow> nat \<Rightarrow> regex_node \<Rightarrow> nat option \<Rightarrow> nat option \<Rightarrow> build_result" where
  "build_regex_sequence_nfa nfa heap node first last' = Built 0 nfa heap first last'"

definition build_regex_branch_nfa ::
  "regex_nfa \<Rightarrow> nat \<Rightarrow> regex_node \<Rightarrow> nat option \<Rightarrow> nat option \<Rightarrow> build_result" where
  "build_regex_branch_nfa nfa heap node first last' = Built 0 nfa heap first last'"

fun build_regex_range_nfa ::
  "regex_nfa \<Rightarrow> nat \<Rightarrow> regex_node \<Rightarrow> nat option \<Rightarrow> nat option \<Rightarrow> build_result" where
  "build_regex_range_nfa nfa heap (Range a start end') first last' =
     (case add_regex_state nfa heap of
        (None, nfa1, heap1) \<Rightarrow> Built (- 1) nfa1 heap1 first last'
      | (Some sid, nfa1, heap1) \<Rightarrow>
          Built 0
            (nfa1\<lparr>states := (states nfa1)[sid := (states nfa1 ! sid)
                     \<lparr>lower := Some (int_to_char start),
                      upper := Some (int_to_char (end' + 1)),
                      end_symbol := Some (- 1)\<rparr>]\<rparr>)
            heap1 (Some sid) (Some sid))"
| "build_regex_range_nfa nfa heap node first last' = Undefined_Behaviour"

text \<open>
  \<^verbatim>\<open>build_regex_nfa_from_node\<close> and \<^verbatim>\<open>build_regex_loop_nfa\<close> call each other.
  The statement \<^verbatim>\<open>start->then = body_first\<close> of the loop builder names a variable
  that the function does not declare; it is left out. A node type without a case of
  its own takes the \<^verbatim>\<open>default\<close> branch of the switch.
\<close>

fun build_regex_nfa_from_node ::
      "regex_nfa \<Rightarrow> nat \<Rightarrow> regex_node \<Rightarrow> nat option \<Rightarrow> nat option \<Rightarrow> build_result"
  and build_regex_loop_nfa ::
      "regex_nfa \<Rightarrow> nat \<Rightarrow> regex_node \<Rightarrow> nat option \<Rightarrow> nat option \<Rightarrow> build_result"
where
  "build_regex_nfa_from_node nfa heap (Sequence a l r) first last' =
     build_regex_sequence_nfa nfa heap (Sequence a l r) first last'"
| "build_regex_nfa_from_node nfa heap (Branch a l r) first last' =
     build_regex_branch_nfa nfa heap (Branch a l r) first last'"
| "build_regex_nfa_from_node nfa heap (Range a s e) first last' =
     build_regex_range_nfa nfa heap (Range a s e) first last'"
| "build_regex_nfa_from_node nfa heap (Loop a body) first last' =
     build_regex_loop_nfa nfa heap (Loop a body) first last'"
| "build_regex_nfa_from_node nfa heap (Reference a s) first last' =
     Built (- 1) nfa heap first last'"
| "build_regex_loop_nfa nfa heap (Loop a body) first last' =
     (case build_regex_nfa_from_node nfa heap body None None of
        Undefined_Behaviour \<Rightarrow> Undefined_Behaviour
      | Built rc nfa1 heap1 body_first body_last \<Rightarrow>
          if rc = - 1 then Built (- 1) nfa1 heap1 first last'
          else
            (case add_regex_state nfa1 heap1 of
               (None, nfa2, heap2) \<Rightarrow> Built (- 1) nfa2 heap2 first last'
             | (Some end_id, nfa2, heap2) \<Rightarrow>
                 (case (body_first, body_last) of
                    (Some bf, Some bl) \<Rightarrow>
                      if bl < length (states nfa2) then
                        (let st1 = (states nfa2)
                                     [end_id := (states nfa2 ! end_id)
                                        \<lparr>lower := Some 0, upper := Some 0,
                                         end_symbol := Some (- 1)\<rparr>];
                             st2 = st1[bl := (st1 ! bl)\<lparr>then_state := Some end_id\<rparr>]
                         in Built 0 (nfa2\<lparr>states := st2\<rparr>) heap2 (Some bf) (Some end_id))
                      else Undefined_Behaviour
                  | _ \<Rightarrow> Undefined_Behaviour)))"
| "build_regex_loop_nfa nfa heap (Sequence a l r) first last' = Undefined_Behaviour"
| "build_regex_loop_nfa nfa heap (Branch a l r) first last' = Undefined_Behaviour"
| "build_regex_loop_nfa nfa heap (Range a s e) first last' = Undefined_Behaviour"
| "build_regex_loop_nfa nfa heap (Reference a s) first last' = Undefined_Behaviour"

text \<open>
  \<^verbatim>\<open>build_regex_nfa\<close>: the expression of the symbol is asserted to be present. The
  result is the return code with the automaton and the heap.
\<close>

datatype nfa_result =
    Undefined
  | Done int regex_nfa nat

definition build_regex_nfa ::
  "regex_nfa \<Rightarrow> nat \<Rightarrow> nat \<Rightarrow> regex_symbol \<Rightarrow> int \<Rightarrow> nfa_result" where
  "build_regex_nfa nfa heap start symbol ident =
     (case expression symbol of
        None \<Rightarrow> Undefined
      | Some e \<Rightarrow>
          (case build_regex_nfa_from_node nfa heap e None None of
             Undefined_Behaviour \<Rightarrow> Undefined
           | Built rc nfa1 heap1 first last' \<Rightarrow>
               if rc = 0 then
                 (case (first, last') of
                    (Some f, Some l) \<Rightarrow>
                      if start < length (states nfa1) \<and> l < length (states nfa1) then
                        (let st1 = (states nfa1)
                                     [start := (states nfa1 ! start)\<lparr>then_state := Some f\<rparr>];
                             st2 = st1[l := (st1 ! l)
                                     \<lparr>then_state := Some 0, otherwise := Some 0,
                                      end_symbol := Some ident\<rparr>]
                         in Done rc (nfa1\<lparr>states := st2\<rparr>) heap1)
                      else Undefined
                  | _ \<Rightarrow> Undefined)
               else Done rc nfa1 heap1))"

subsection \<open>Building the automaton of a symbol table\<close>

text \<open>
  The counting loop of \<^verbatim>\<open>copy_regex_symbol_names\<close> runs while \<^verbatim>\<open>s->next\<close> is
  not \<^verbatim>\<open>NULL\<close>; on the empty table \<^verbatim>\<open>s\<close> itself is \<^verbatim>\<open>NULL\<close>.
\<close>

fun count_regex_symbols :: "regex_symbol list \<Rightarrow> nat" where
  "count_regex_symbols (s # s' # ss) = Suc (count_regex_symbols (s' # ss))"
| "count_regex_symbols ss = 0"

fun copy_regex_symbol_names_loop ::
  "nat \<Rightarrow> regex_symbol list \<Rightarrow> nat \<Rightarrow> string list option \<times> nat" where
  "copy_regex_symbol_names_loop 0 ss heap = (Some [], heap)"
| "copy_regex_symbol_names_loop (Suc k) [] heap = (None, heap)"
| "copy_regex_symbol_names_loop (Suc k) (s # ss) heap =
     (if heap = 0 then (None, heap)
      else (case copy_regex_symbol_names_loop k ss (heap - 1) of
              (None, heap1) \<Rightarrow> (None, heap1)
            | (Some names, heap1) \<Rightarrow> (Some (name s # names), heap1)))"

definition copy_regex_symbol_names ::
  "regex_nfa \<Rightarrow> nat \<Rightarrow> regex_symbol list \<Rightarrow> nfa_result" where
  "copy_regex_symbol_names nfa heap syms =
     (if syms = [] then Undefined
      else
        (let count = count_regex_symbols syms in
         if count \<noteq> 0 then
           (if heap = 0 then Done (- 1) nfa heap
            else (case copy_regex_symbol_names_loop count syms (heap - 1) of
                    (None, heap1) \<Rightarrow> Done (- 1) nfa heap1
                  | (Some names, heap1) \<Rightarrow>
                      Done 0 (nfa\<lparr>nfa_symbols := names, symbols_len := count\<rparr>) heap1))
         else Done 0 (nfa\<lparr>nfa_symbols := [], symbols_len := count\<rparr>) heap))"

text \<open>
  The loop of \<^verbatim>\<open>parse_regex_nfa\<close> over the symbols, with the symbol \<^verbatim>\<open>s\<close> at the
  head of the list. The pointer \<^verbatim>\<open>state\<close> is taken before the builder runs and
  written through afterwards: when the buffer has been reallocated in between, the
  write is undefined.
\<close>

fun parse_regex_nfa_loop ::
  "regex_symbol list \<Rightarrow> int \<Rightarrow> nat \<Rightarrow> regex_nfa \<Rightarrow> nat \<Rightarrow> nfa_result" where
  "parse_regex_nfa_loop [] index start nfa heap = Undefined"
| "parse_regex_nfa_loop [s] index start nfa heap = Done 0 nfa heap"
| "parse_regex_nfa_loop (s # s' # ss) index start nfa heap =
     (if start < length (states nfa) then
        (let nfa1 = nfa\<lparr>states := (states nfa)
                      [start := (states nfa ! start)
                         \<lparr>lower := Some 0, upper := Some 0, end_symbol := Some (- 1)\<rparr>]\<rparr>
         in case build_regex_nfa nfa1 heap start s index of
              Undefined \<Rightarrow> Undefined
            | Done rc nfa2 heap2 \<Rightarrow>
                if rc = - 1 then Done (- 1) nfa2 heap2
                else
                  (case add_regex_state nfa2 heap2 of
                     (None, nfa3, heap3) \<Rightarrow> Done (- 1) nfa3 heap3
                   | (Some next_state, nfa3, heap3) \<Rightarrow>
                       if nfa_size nfa3 \<noteq> nfa_size nfa then Undefined
                       else parse_regex_nfa_loop (s' # ss) (index + 1) next_state
                              (nfa3\<lparr>states := (states nfa3)
                                 [start := (states nfa3 ! start)
                                    \<lparr>otherwise := Some next_state\<rparr>]\<rparr>)
                              heap3))
      else Undefined)"

text \<open>
  \<^verbatim>\<open>parse_regex_nfa\<close> from the point where \<^verbatim>\<open>parse_regex_symbols\<close> has returned
  the table \<open>syms\<close>, and the whole function. \<open>nfa\<close> is the caller's structure.
\<close>

definition parse_regex_nfa_symbols :: "regex_symbol list \<Rightarrow> regex_nfa \<Rightarrow> nat \<Rightarrow> nfa_result" where
  "parse_regex_nfa_symbols syms nfa heap =
     (case copy_regex_symbol_names (nfa\<lparr>states := [], nfa_size := 0\<rparr>) heap syms of
        Undefined \<Rightarrow> Undefined
      | Done rc nfa1 heap1 \<Rightarrow>
          if rc = - 1 then Done (- 1) nfa1 heap1
          else
            (case add_regex_state nfa1 heap1 of
               (None, nfa2, heap2) \<Rightarrow> Done (- 1) nfa2 heap2
             | (Some start, nfa2, heap2) \<Rightarrow> parse_regex_nfa_loop syms 0 start nfa2 heap2))"

definition parse_regex_nfa :: "nat \<Rightarrow> nat \<Rightarrow> string \<Rightarrow> regex_nfa \<Rightarrow> nfa_result outcome" where
  "parse_regex_nfa n budget file nfa =
     and_then (parse_regex_symbols n budget file) (\<lambda>syms p.
       case syms of
         None \<Rightarrow> Return (Done (- 1) nfa (heap_left p)) p
       | Some ss \<Rightarrow> Return (parse_regex_nfa_symbols ss nfa (heap_left p)) p)"

subsection \<open>The matcher\<close>

text \<open>
  A \<^verbatim>\<open>struct regex_matcher\<close>: the fields \<^verbatim>\<open>nfa\<close>, \<^verbatim>\<open>stack\<close>, \<^verbatim>\<open>size\<close>,
  \<^verbatim>\<open>len\<close> and \<^verbatim>\<open>symbol\<close>. regex.h documents \<^verbatim>\<open>match_regex\<close> as storing match
  length and symbol on the matcher on success and returning 0 on success, -1 when no
  match was found. The functions return their result and the matcher.
\<close>

record regex_matcher =
  matcher_nfa :: regex_nfa
  stack :: "nat list"
  stack_size :: nat
  match_len :: nat
  match_symbol :: nat

definition init_regex_matcher :: "regex_matcher \<Rightarrow> regex_nfa \<Rightarrow> int \<times> regex_matcher" where
  "init_regex_matcher m nfa = (0, m)"

definition match_regex :: "regex_matcher \<Rightarrow> string \<Rightarrow> int \<times> regex_matcher" where
  "match_regex m input = (0, m)"

definition reset_regex_matcher :: "regex_matcher \<Rightarrow> regex_matcher" where
  "reset_regex_matcher m = m"

section \<open>Notions used in the statements\<close>

text \<open>Skipping characters changes the position, the line and the column only.\<close>

definition same_but_position :: "regex_parser \<Rightarrow> regex_parser \<Rightarrow> bool" where
  "same_but_position p p' =
     (buf p' = buf p \<and> error p' = error p \<and> symbols p' = symbols p
      \<and> heap_next p' = heap_next p \<and> heap_left p' = heap_left p)"

text \<open>The parser stands before a literal whose first character is the escape character.\<close>

definition at_escaped_literal :: "regex_parser \<Rightarrow> bool" where
  "at_escaped_literal p =
     (\<exists>rest. drop (pos p) (buf p) = REGEX_PARSER_LITERAL # REGEX_PARSER_ESCAPE # rest)"

text \<open>
  \<open>fuel_le a b\<close>: the run \<open>b\<close>, made with more fuel, ends as the run \<open>a\<close> does,
  unless \<open>a\<close> ran out of fuel.
\<close>

definition fuel_le :: "'a outcome \<Rightarrow> 'a outcome \<Rightarrow> bool" where
  "fuel_le a b = (a = OutOfFuel \<or> a = b)"

text \<open>A parse function has not returned a node: it has not returned, or it returned
  \<^verbatim>\<open>NULL\<close>.\<close>

definition no_node :: "regex_node option outcome \<Rightarrow> bool" where
  "no_node r = (r = OutOfFuel \<or> (\<exists>p. r = Return None p))"

text \<open>The address of a node, and the nodes a node owns, itself included: those reached
  through the children of sequences and branches and the bodies of loops.\<close>

fun node_address :: "regex_node \<Rightarrow> nat" where
  "node_address (Sequence a l r) = a"
| "node_address (Branch a l r) = a"
| "node_address (Range a s e) = a"
| "node_address (Loop a b) = a"
| "node_address (Reference a s) = a"

fun owned_nodes :: "regex_node \<Rightarrow> regex_node list" where
  "owned_nodes (Sequence a l r) = Sequence a l r # owned_nodes l @ owned_nodes r"
| "owned_nodes (Branch a l r) = Branch a l r # owned_nodes l @ owned_nodes r"
| "owned_nodes (Loop a b) = Loop a b # owned_nodes b"
| "owned_nodes (Range a s e) = [Range a s e]"
| "owned_nodes (Reference a s) = [Reference a s]"

text \<open>
  The ranges at the leaves of a node, from left to right, and the nodes that are made of
  sequences and ranges only; the same for a tree under construction.
\<close>

fun node_ranges :: "regex_node \<Rightarrow> (int \<times> int) list" where
  "node_ranges (Sequence a l r) = node_ranges l @ node_ranges r"
| "node_ranges (Branch a l r) = node_ranges l @ node_ranges r"
| "node_ranges (Range a s e) = [(s, e)]"
| "node_ranges (Loop a b) = node_ranges b"
| "node_ranges (Reference a s) = []"

fun only_sequences :: "regex_node \<Rightarrow> bool" where
  "only_sequences (Sequence a l r) = (only_sequences l \<and> only_sequences r)"
| "only_sequences (Range a s e) = True"
| "only_sequences nd = False"

definition tree_ranges :: "regex_tree \<Rightarrow> (int \<times> int) list" where
  "tree_ranges tree = (case tree_root tree of None \<Rightarrow> [] | Some nd \<Rightarrow> node_ranges nd)"

definition tree_only_sequences :: "regex_tree \<Rightarrow> bool" where
  "tree_only_sequences tree =
     ((\<forall>(t, a, l) \<in> set (spine tree). t = REGEX_TYPE_SEQUENCE \<and> only_sequences l)
      \<and> (\<forall>nd. leaf tree = Some nd \<longrightarrow> only_sequences nd)
      \<and> (leaf tree = None \<longrightarrow> spine tree = []))"

subsection \<open>Grammars, tables and parser states of the examples\<close>

text \<open>The structure the caller passes to \<^verbatim>\<open>parse_regex_nfa\<close>.\<close>

definition unset_regex_nfa :: regex_nfa where
  "unset_regex_nfa = \<lparr>states = [], nfa_size = 0, nfa_symbols = [], symbols_len = 0\<rparr>"

text \<open>\<^verbatim>\<open>@a "x";\<close> and the table it is parsed to.\<close>

definition grammar_single_lexeme :: string where
  "grammar_single_lexeme = ''@a '' @ [REGEX_PARSER_LITERAL] @ ''x'' @ [REGEX_PARSER_LITERAL] @ '';''"

definition single_lexeme_table :: "regex_symbol list" where
  "single_lexeme_table = [\<lparr>name = ''a'', lexeme = True, expression = Some (Range 2 120 121)\<rparr>]"

text \<open>\<^verbatim>\<open>a $b;b "x";\<close> and the table it is parsed to.\<close>

definition grammar_reference :: string where
  "grammar_reference = ''a $b;b '' @ [REGEX_PARSER_LITERAL] @ ''x'' @ [REGEX_PARSER_LITERAL] @ '';''"

definition reference_table :: "regex_symbol list" where
  "reference_table =
     [\<lparr>name = ''a'', lexeme = False, expression = Some (Reference 3 1)\<rparr>,
      \<lparr>name = ''b'', lexeme = False, expression = Some (Range 4 120 121)\<rparr>]"

text \<open>\<^verbatim>\<open>a "xy";b "z";\<close>, where the first expression is a sequence.\<close>

definition grammar_sequence :: string where
  "grammar_sequence =
     ''a '' @ [REGEX_PARSER_LITERAL] @ ''xy'' @ [REGEX_PARSER_LITERAL] @ '';b '' @
     [REGEX_PARSER_LITERAL] @ ''z'' @ [REGEX_PARSER_LITERAL] @ '';''"

text \<open>The literal \<^verbatim>\<open>"a"\<close>.\<close>

definition literal_a :: string where
  "literal_a = [REGEX_PARSER_LITERAL] @ ''a'' @ [REGEX_PARSER_LITERAL]"

text \<open>\<^verbatim>\<open>a $b;\<close>, where \<open>b\<close> is never defined, and the parser after the last statement.\<close>

definition grammar_undefined :: string where
  "grammar_undefined = ''a $b;''"

definition undefined_parsed :: regex_parser where
  "undefined_parsed =
     \<lparr>buf = grammar_undefined, pos = 5, error = None, line = 1, col = 6,
      symbols = [\<lparr>name = ''a'', lexeme = False, expression = Some (Reference 3 1)\<rparr>,
                 \<lparr>name = ''b'', lexeme = False, expression = None\<rparr>],
      heap_next = 4, heap_left = 16\<rparr>"

text \<open>\<^verbatim>\<open>a "x";\<close> followed by a newline.\<close>

definition grammar_trailing_newline :: string where
  "grammar_trailing_newline =
     ''a '' @ [REGEX_PARSER_LITERAL] @ ''x'' @ [REGEX_PARSER_LITERAL] @ '';'' @ [NEWLINE]"

text \<open>\<^verbatim>\<open>a "\"";\<close>: a literal that holds an escaped quote; the parser after the
  table has been allocated.\<close>

definition grammar_escaped_quote :: string where
  "grammar_escaped_quote =
     ''a '' @ [REGEX_PARSER_LITERAL, REGEX_PARSER_ESCAPE, REGEX_PARSER_LITERAL,
               REGEX_PARSER_LITERAL] @ '';''"

definition escaped_quote_start :: regex_parser where
  "escaped_quote_start =
     \<lparr>buf = grammar_escaped_quote, pos = 0, error = None, line = 1, col = 1,
      symbols = [], heap_next = 1, heap_left = 19\<rparr>"

text \<open>\<^verbatim>\<open>@a "x"; @a "y";\<close> and the parser before the second definition.\<close>

definition grammar_duplicate :: string where
  "grammar_duplicate =
     ''@a '' @ [REGEX_PARSER_LITERAL] @ ''x'' @ [REGEX_PARSER_LITERAL] @ ''; @a '' @
     [REGEX_PARSER_LITERAL] @ ''y'' @ [REGEX_PARSER_LITERAL] @ '';''"

definition duplicate_second :: regex_parser where
  "duplicate_second =
     \<lparr>buf = grammar_duplicate, pos = 8, error = None, line = 1, col = 9,
      symbols = [\<lparr>name = ''a'', lexeme = True, expression = Some (Range 2 120 121)\<rparr>],
      heap_next = 3, heap_left = 17\<rparr>"

text \<open>A table with the symbol \<open>a\<close> over the buffer \<^verbatim>\<open>aA\<close>.\<close>

definition lookup_example :: regex_parser where
  "lookup_example = \<lparr>buf = ''aA'', pos = 0, error = None, line = 1, col = 1,
          symbols = [\<lparr>name = ''a'', lexeme = True, expression = None\<rparr>],
          heap_next = 0, heap_left = 1\<rparr>"

section \<open>Lemmas\<close>

subsection \<open>The symbol table\<close>

lemma regex_symbol_name_eq_iff: "regex_symbol_name_eq left right = (left = right)"
  by (induction left right rule: regex_symbol_name_eq.induct) auto

lemma lookup_regex_symbol_None:
  "(lookup_regex_symbol ss nm = None) = (\<forall>s \<in> set ss. name s \<noteq> nm)"
  by (induction ss) (auto simp: regex_symbol_name_eq_iff)

lemma lookup_regex_symbol_Some:
  "lookup_regex_symbol ss nm = Some i \<Longrightarrow>
     i < length ss \<and> name (ss ! i) = nm \<and> (\<forall>j < i. name (ss ! j) \<noteq> nm)"
proof (induction ss arbitrary: i)
  case Nil
  then show ?case by simp
next
  case (Cons s ss)
  show ?case
  proof (cases "regex_symbol_name_eq (name s) nm")
    case True
    with Cons.prems show ?thesis by (simp add: regex_symbol_name_eq_iff)
  next
    case False
    with Cons.prems obtain k where k: "lookup_regex_symbol ss nm = Some k" "i = Suc k"
      by auto
    from Cons.IH [OF k(1)] False k(2) show ?thesis
      by (auto simp: regex_symbol_name_eq_iff less_Suc_eq_0_disj)
  qed
qed

lemma check_regex_symbols_None:
  "(check_regex_symbols ss = None) = (\<forall>s \<in> set ss. expression s \<noteq> None)"
  by (induction ss) auto

lemma check_regex_symbols_Some:
  "\<exists>s \<in> set ss. expression s = None \<Longrightarrow>
     \<exists>s \<in> set ss. expression s = None \<and> check_regex_symbols ss = Some (name s)"
  by (induction ss) auto

subsection \<open>Skipping\<close>

lemma and_then_weak_cong: "m = m' \<Longrightarrow> and_then m f = and_then m' f"
  by simp

lemma drop_eq_ConsD:
  "drop n xs = y # ys \<Longrightarrow> n < length xs \<and> xs ! n = y \<and> drop (Suc n) xs = ys"
  by (metis Cons_nth_drop_Suc drop_eq_Nil list.distinct(1) list.inject not_le)

lemma parser_skip_while_run:
  "pos p \<le> length (buf p) \<Longrightarrow> drop (pos p) (buf p) = xs @ rest
   \<Longrightarrow> \<forall>c \<in> set xs. pred c \<Longrightarrow> rest = [] \<or> \<not> pred (hd rest)
   \<Longrightarrow> \<exists>p'. parser_skip_while pred p = Return () p'
            \<and> pos p' = pos p + length xs \<and> same_but_position p p'"
proof (induction xs arbitrary: p)
  case Nil
  show ?case
  proof (cases "rest = []")
    case True
    with Nil have "pos p = length (buf p)" by simp
    then show ?thesis
      by (subst parser_skip_while.simps) (simp add: parser_has_more_def same_but_position_def)
  next
    case False
    then obtain r rs where r: "rest = r # rs" by (cases rest) auto
    with Nil have d: "drop (pos p) (buf p) = r # rs" and np: "\<not> pred r" by auto
    from drop_eq_ConsD [OF d] np show ?thesis
      by (subst parser_skip_while.simps)
         (simp add: parser_has_more_def parser_peek_def same_but_position_def)
  qed
next
  case (Cons x xs)
  from Cons.prems have d: "drop (pos p) (buf p) = x # (xs @ rest)" and px: "pred x" by auto
  note e = drop_eq_ConsD [OF d]
  define p2 where "p2 = (if is_newline (buf p ! pos p)
           then p\<lparr>line := line p + 1, col := 1, pos := pos p + 1\<rparr>
           else p\<lparr>col := col p + 1, pos := pos p + 1\<rparr>)"
  have sk: "parser_skip p = Return () p2"
    using e by (simp add: parser_skip_def p2_def)
  have p2: "pos p2 = pos p + 1" "same_but_position p p2"
    by (auto simp: p2_def same_but_position_def)
  have "pos p2 \<le> length (buf p2)" "drop (pos p2) (buf p2) = xs @ rest"
    using e p2 by (auto simp: same_but_position_def)
  from Cons.IH [OF this] Cons.prems
  obtain p' where p': "parser_skip_while pred p2 = Return () p'"
      "pos p' = pos p2 + length xs" "same_but_position p2 p'"
    by auto
  have "parser_skip_while pred p = parser_skip_while pred p2"
    using e px sk
    by (subst parser_skip_while.simps) (simp add: parser_has_more_def parser_peek_def)
  with p' p2 show ?case
    by (auto simp: same_but_position_def)
qed

lemma parse_regex_symbols_loop_trailing_whitespace:
  assumes "pos p < length (buf p)"
    and "\<forall>c \<in> set (drop (pos p) (buf p)). is_whitespace c"
  shows "parse_regex_symbols_loop (Suc n) p = ReadPastEnd"
proof -
  from assms(1) have le: "pos p \<le> length (buf p)" by simp
  have d: "drop (pos p) (buf p) = drop (pos p) (buf p) @ []" by simp
  from parser_skip_while_run [OF le d assms(2)]
  obtain p' where p': "parser_skip_while is_whitespace p = Return () p'"
      "pos p' = pos p + length (drop (pos p) (buf p))" "same_but_position p p'"
    by auto
  then have "parser_peek p' = ReadPastEnd"
    using assms(1) by (simp add: parser_peek_def same_but_position_def)
  with p'(1) assms(1) show ?thesis
    by (simp add: parser_has_more_def parser_skip_whitespace_def)
qed

subsection \<open>Literals without an escape character\<close>

lemma node_ranges_close_spine_snoc:
  "node_ranges (close_spine (sp @ [(t, a, l)]) nd) = node_ranges (close_spine sp l) @ node_ranges nd"
  by (induction sp) auto

lemma only_sequences_close_spine:
  "\<forall>(t, a, l) \<in> set sp. t = REGEX_TYPE_SEQUENCE \<and> only_sequences l \<Longrightarrow> only_sequences nd \<Longrightarrow>
     only_sequences (close_spine sp nd)"
  by (induction sp) auto

lemma add_to_regex_tree_ranges:
  assumes "0 < heap_left p" and "tree_only_sequences tree" and "only_sequences nd"
  shows "\<exists>tree' p'. add_to_regex_tree tree REGEX_TYPE_SEQUENCE nd p = (Some tree', p')
           \<and> tree_ranges tree' = tree_ranges tree @ node_ranges nd
           \<and> tree_only_sequences tree'
           \<and> leaf tree' \<noteq> None
           \<and> buf p' = buf p \<and> pos p' = pos p \<and> heap_left p' \<ge> heap_left p - 1
           \<and> error p' = error p \<and> symbols p' = symbols p"
  using assms
  by (cases "leaf tree")
     (auto simp: add_to_regex_tree_def create_regex_node_def malloc_def tree_ranges_def
        tree_root_def node_ranges_close_spine_snoc tree_only_sequences_def)

lemma parse_literal_loop_ranges:
  "drop (pos p) (buf p) = cs @ REGEX_PARSER_LITERAL # rest \<Longrightarrow>
   REGEX_PARSER_LITERAL \<notin> set cs \<Longrightarrow> REGEX_PARSER_ESCAPE \<notin> set cs \<Longrightarrow>
   2 * length cs \<le> heap_left p \<Longrightarrow> length cs < n \<Longrightarrow>
   tree_only_sequences tree \<Longrightarrow>
   \<exists>r p'. parse_literal_loop n tree False p = Return r p'
        \<and> (case r of None \<Rightarrow> [] | Some nd \<Rightarrow> node_ranges nd)
            = tree_ranges tree @ map (\<lambda>c. (char_to_int c, char_to_int c + 1)) cs
        \<and> (\<forall>nd. r = Some nd \<longrightarrow> only_sequences nd)
        \<and> (r = None \<longrightarrow> leaf tree = None \<and> cs = [])
        \<and> pos p' = pos p + length cs + 1 \<and> buf p' = buf p
        \<and> error p' = error p \<and> symbols p' = symbols p"
proof (induction cs arbitrary: p n tree)
  case Nil
  then obtain m where n: "n = Suc m" by (cases n) auto
  from Nil have d: "drop (pos p) (buf p) = REGEX_PARSER_LITERAL # rest" by simp
  note e = drop_eq_ConsD [OF d]
  from e Nil.prems(6) show ?case
    by (auto simp: n parser_has_more_def parser_peek_def parser_skip_def is_newline_def
          tree_ranges_def tree_root_def tree_only_sequences_def only_sequences_close_spine
          split: option.splits)
next
  case (Cons c cs)
  then obtain m where n: "n = Suc m" and m: "length cs < m" by (cases n) auto
  from Cons.prems have d: "drop (pos p) (buf p) = c # (cs @ REGEX_PARSER_LITERAL # rest)"
    and c: "c \<noteq> REGEX_PARSER_LITERAL" "c \<noteq> REGEX_PARSER_ESCAPE"
    and cs: "REGEX_PARSER_LITERAL \<notin> set cs" "REGEX_PARSER_ESCAPE \<notin> set cs"
    and h: "2 * length cs + 2 \<le> heap_left p"
    by auto
  note e = drop_eq_ConsD [OF d]
  have pk: "parser_has_more p" "parser_peek p = Return c p"
    using e by (simp_all add: parser_has_more_def parser_peek_def)
  define p2 where "p2 = p\<lparr>heap_next := heap_next p + 1, heap_left := heap_left p - 1\<rparr>"
  have cr: "create_regex_node p = (Some (heap_next p), p2)"
    using h by (simp add: create_regex_node_def malloc_def p2_def)
  have h2: "0 < heap_left p2" using h by (simp add: p2_def)
  let ?nd = "Range (heap_next p) (char_to_int c) (char_to_int c + 1)"
  from add_to_regex_tree_ranges [OF h2 Cons.prems(6), of ?nd]
  obtain tree' p3 where
    add: "add_to_regex_tree tree REGEX_TYPE_SEQUENCE ?nd p2 = (Some tree', p3)"
      "tree_ranges tree' = tree_ranges tree @ [(char_to_int c, char_to_int c + 1)]"
      "tree_only_sequences tree'" "leaf tree' \<noteq> None"
      "buf p3 = buf p2" "pos p3 = pos p2" "heap_left p2 - 1 \<le> heap_left p3"
      "error p3 = error p2" "symbols p3 = symbols p2"
    by auto
  obtain p4 where sk: "parser_skip p3 = Return () p4" and
    p4: "pos p4 = pos p + 1" "buf p4 = buf p" "heap_left p4 = heap_left p3"
        "error p4 = error p" "symbols p4 = symbols p"
    using e add(5,6,8,9) by (auto simp: parser_skip_def p2_def)
  have d4: "drop (pos p4) (buf p4) = cs @ REGEX_PARSER_LITERAL # rest"
    using e p4 by simp
  have h4: "2 * length cs \<le> heap_left p4"
    using h add(7) p4(3) by (simp add: p2_def)
  from Cons.IH [OF d4 cs h4 m add(3)]
  obtain r p' where r: "parse_literal_loop m tree' False p4 = Return r p'"
      "(case r of None \<Rightarrow> [] | Some nd \<Rightarrow> node_ranges nd)
         = tree_ranges tree' @ map (\<lambda>c. (char_to_int c, char_to_int c + 1)) cs"
      "\<forall>nd. r = Some nd \<longrightarrow> only_sequences nd"
      "r = None \<longrightarrow> leaf tree' = None \<and> cs = []"
      "pos p' = pos p4 + length cs + 1" "buf p' = buf p4"
      "error p' = error p4" "symbols p' = symbols p4"
    by blast
  have "parse_literal_loop n tree False p = parse_literal_loop m tree' False p4"
    using pk c cr add(1) sk by (simp add: n)
  with r add(2,4) p4 show ?case by auto
qed


lemma parse_literal_ranges:
  assumes "drop (pos p) (buf p) = REGEX_PARSER_LITERAL # cs @ REGEX_PARSER_LITERAL # rest"
    and "REGEX_PARSER_LITERAL \<notin> set cs" and "REGEX_PARSER_ESCAPE \<notin> set cs"
    and "2 * length cs \<le> heap_left p" and "length cs < n"
  shows "\<exists>r p'. parse_literal n p = Return r p'
           \<and> (case r of None \<Rightarrow> [] | Some nd \<Rightarrow> node_ranges nd)
               = map (\<lambda>c. (char_to_int c, char_to_int c + 1)) cs
           \<and> (\<forall>nd. r = Some nd \<longrightarrow> only_sequences nd)
           \<and> (r = None \<longrightarrow> cs = [])
           \<and> pos p' = pos p + length cs + 2"
proof -
  note e = drop_eq_ConsD [OF assms(1)]
  then obtain p1 where sk: "parser_skip p = Return () p1" and
    p1: "drop (pos p1) (buf p1) = cs @ REGEX_PARSER_LITERAL # rest" "pos p1 = pos p + 1"
        "heap_left p1 = heap_left p"
    by (auto simp: parser_skip_def)
  have t: "tree_only_sequences empty_regex_tree" "tree_ranges empty_regex_tree = []"
    by (simp_all add: tree_only_sequences_def empty_regex_tree_def tree_ranges_def tree_root_def)
  from parse_literal_loop_ranges [OF p1(1) assms(2,3) _ assms(5) t(1)] assms(4) p1(3)
  obtain r p' where "parse_literal_loop n empty_regex_tree False p1 = Return r p'"
      "(case r of None \<Rightarrow> [] | Some nd \<Rightarrow> node_ranges nd)
         = tree_ranges empty_regex_tree @ map (\<lambda>c. (char_to_int c, char_to_int c + 1)) cs"
      "\<forall>nd. r = Some nd \<longrightarrow> only_sequences nd"
      "r = None \<longrightarrow> leaf empty_regex_tree = None \<and> cs = []"
      "pos p' = pos p1 + length cs + 1"
    by auto
  with sk p1(2) t(2) show ?thesis
    by (auto simp: parse_literal_def)
qed

subsection \<open>The escape character in a literal\<close>

lemma parse_literal_loop_escape:
  "parser_peek p = Return REGEX_PARSER_ESCAPE p' \<Longrightarrow>
     parse_literal_loop n tree escaped p = OutOfFuel"
proof (induction n arbitrary: tree escaped)
  case 0
  show ?case by simp
next
  case (Suc n)
  from Suc.prems have "parser_has_more p" "p' = p"
    by (auto simp: parser_peek_def parser_has_more_def split: if_splits)
  with Suc show ?case by simp
qed

lemma at_escaped_literalD:
  assumes "at_escaped_literal p"
  shows "parser_has_more p" "parser_peek p = Return REGEX_PARSER_LITERAL p"
    "\<exists>p1. parser_skip p = Return () p1 \<and> parser_peek p1 = Return REGEX_PARSER_ESCAPE p1"
proof -
  from assms obtain rest where
    d: "drop (pos p) (buf p) = REGEX_PARSER_LITERAL # REGEX_PARSER_ESCAPE # rest"
    by (auto simp: at_escaped_literal_def)
  note e = drop_eq_ConsD [OF d]
  from e have d2: "drop (Suc (pos p)) (buf p) = REGEX_PARSER_ESCAPE # rest" by simp
  note e2 = drop_eq_ConsD [OF d2]
  show "parser_has_more p" using e by (simp add: parser_has_more_def)
  show "parser_peek p = Return REGEX_PARSER_LITERAL p" using e by (simp add: parser_peek_def)
  show "\<exists>p1. parser_skip p = Return () p1 \<and> parser_peek p1 = Return REGEX_PARSER_ESCAPE p1"
    using e e2 by (simp add: parser_skip_def parser_peek_def is_newline_def)
qed

lemma parse_literal_escape: "at_escaped_literal p \<Longrightarrow> parse_literal n p = OutOfFuel"
  using at_escaped_literalD(3) [of p]
  by (auto simp: parse_literal_def parse_literal_loop_escape)

lemma parse_regex_expression_escape:
  "at_escaped_literal p \<Longrightarrow> parse_regex_expression n p = OutOfFuel"
  using at_escaped_literalD(1,2) [of p]
  by (cases n) (simp_all add: parse_literal_escape)

lemma parse_regex_loop_escape:
  "at_escaped_literal p \<Longrightarrow> parse_regex_loop n p = OutOfFuel"
  by (cases n) (simp_all add: parse_regex_expression_escape)

lemma parse_regex_sequence_loop_escape:
  "at_escaped_literal p \<Longrightarrow> parse_regex_sequence_loop n tree p = OutOfFuel"
  using at_escaped_literalD(1,2) [of p]
  by (cases n) (simp_all add: parse_regex_loop_escape)

lemma parse_regex_branch_loop_escape:
  "at_escaped_literal p \<Longrightarrow> parse_regex_branch_loop n tree p = OutOfFuel"
  using at_escaped_literalD(1,2) [of p]
  by (cases n) (simp_all add: parse_regex_sequence_loop_escape)

lemma parse_regex_statement_escape:
  "at_escaped_literal p \<Longrightarrow> parse_regex_statement n p = OutOfFuel"
  by (simp add: parse_regex_statement_def parse_regex_branch_def parse_regex_branch_loop_escape)

lemma parse_symbol_escaped_quote: "parse_symbol n escaped_quote_start = OutOfFuel"
  by (simp add: parse_symbol_def escaped_quote_start_def grammar_escaped_quote_def
        parser_peek_def parser_has_more_def parser_skip_def is_identifier_def isalpha_def
        isdigit_def is_newline_def parser_pos_def get_or_create_regex_symbol_def
        MAX_REGEX_SYMBOL_NAME_LENGTH_def parser_at_def malloc_def parser_copy_string_def
        parser_skip_whitespace_def is_whitespace_def
        parse_regex_statement_escape at_escaped_literal_def
        cong: and_then_weak_cong)

lemma parse_regex_symbols_loop_escaped_quote:
  "parse_regex_symbols_loop n escaped_quote_start = OutOfFuel"
proof (cases n)
  case 0
  then show ?thesis by simp
next
  case (Suc m)
  have "parser_skip_whitespace escaped_quote_start = Return () escaped_quote_start"
    by (simp add: parser_skip_whitespace_def escaped_quote_start_def grammar_escaped_quote_def
          parser_has_more_def parser_peek_def is_whitespace_def)
  moreover have "parser_peek escaped_quote_start = Return CHR ''a'' escaped_quote_start"
    by (simp add: escaped_quote_start_def grammar_escaped_quote_def parser_peek_def)
  moreover have "parser_has_more escaped_quote_start"
    by (simp add: escaped_quote_start_def grammar_escaped_quote_def parser_has_more_def)
  ultimately show ?thesis
    using Suc by (simp add: parse_symbol_escaped_quote)
qed

lemma no_node_simps [simp]:
  "no_node OutOfFuel" "no_node (Return None p)" "\<not> no_node (Return (Some nd) p)"
  "\<not> no_node ReadPastEnd" "\<not> no_node NullDereference"
  by (simp_all add: no_node_def)

lemma parse_literal_loop_escape_no_node:
  "drop (pos p) (buf p) = xs @ REGEX_PARSER_ESCAPE # rest \<Longrightarrow>
   REGEX_PARSER_LITERAL \<notin> set xs \<Longrightarrow>
   no_node (parse_literal_loop n tree escaped p)"
proof (induction xs arbitrary: p n tree escaped)
  case Nil
  then have d: "drop (pos p) (buf p) = REGEX_PARSER_ESCAPE # rest" by simp
  from drop_eq_ConsD [OF d] have "parser_peek p = Return REGEX_PARSER_ESCAPE p"
    by (simp add: parser_peek_def)
  then show ?case by (simp add: parse_literal_loop_escape)
next
  case (Cons x xs)
  from Cons.prems have d: "drop (pos p) (buf p) = x # (xs @ REGEX_PARSER_ESCAPE # rest)"
    and x: "x \<noteq> REGEX_PARSER_LITERAL" and xs: "REGEX_PARSER_LITERAL \<notin> set xs"
    by auto
  note e = drop_eq_ConsD [OF d]
  have pk: "parser_peek p = Return x p" "parser_has_more p"
    using e by (simp_all add: parser_peek_def parser_has_more_def)
  show ?case
  proof (cases n)
    case 0
    then show ?thesis by simp
  next
    case (Suc m)
    show ?thesis
    proof (cases "x = REGEX_PARSER_ESCAPE")
      case True
      with pk show ?thesis by (simp add: parse_literal_loop_escape)
    next
      case False
      have step: "\<And>q. buf q = buf p \<Longrightarrow> pos q = pos p \<Longrightarrow>
          \<exists>q'. parser_skip q = Return () q' \<and> drop (pos q') (buf q') = xs @ REGEX_PARSER_ESCAPE # rest"
        using e by (auto simp: parser_skip_def)
      have mal: "\<And>q a q'. create_regex_node q = (a, q') \<Longrightarrow> buf q' = buf q \<and> pos q' = pos q"
        by (auto simp: create_regex_node_def malloc_def split: if_splits)
      have add: "\<And>t ty nd q t' q'. add_to_regex_tree t ty nd q = (t', q') \<Longrightarrow> buf q' = buf q \<and> pos q' = pos q"
        by (auto simp: add_to_regex_tree_def create_regex_node_def malloc_def split: if_splits option.splits)
      show ?thesis
      proof (cases "create_regex_node p")
        case (Pair a p2)
        note p2 = mal [OF Pair]
        show ?thesis
        proof (cases a)
          case None
          with Pair pk False x Suc show ?thesis by simp
        next
          case (Some addr)
          show ?thesis
          proof (cases "add_to_regex_tree tree REGEX_TYPE_SEQUENCE
                          (Range addr (char_to_int x) (char_to_int x + 1)) p2")
            case (Pair t' p3)
            note p3 = add [OF Pair]
            show ?thesis
            proof (cases t')
              case None
              with Pair \<open>create_regex_node p = (a, p2)\<close> Some pk False x Suc show ?thesis by simp
            next
              case (Some tree')
              from step [of p3] p3 p2 obtain p4 where
                p4: "parser_skip p3 = Return () p4"
                    "drop (pos p4) (buf p4) = xs @ REGEX_PARSER_ESCAPE # rest"
                by auto
              from Cons.IH [OF p4(2) xs]
              have "no_node (parse_literal_loop m tree' False p4)" .
              with Pair \<open>create_regex_node p = (a, p2)\<close> \<open>a = Some addr\<close> Some pk False x Suc p4(1)
              show ?thesis by simp
            qed
          qed
        qed
      qed
    qed
  qed
qed

lemma parse_literal_escape_no_node:
  assumes "drop (pos p) (buf p) = REGEX_PARSER_LITERAL # xs @ REGEX_PARSER_ESCAPE # rest"
    and "REGEX_PARSER_LITERAL \<notin> set xs"
  shows "no_node (parse_literal n p)"
proof -
  note e = drop_eq_ConsD [OF assms(1)]
  then obtain p1 where "parser_skip p = Return () p1"
    "drop (pos p1) (buf p1) = xs @ REGEX_PARSER_ESCAPE # rest"
    by (auto simp: parser_skip_def)
  with parse_literal_loop_escape_no_node [OF _ assms(2)] show ?thesis
    by (simp add: parse_literal_def)
qed

lemma parse_regex_range_bound_escape:
  assumes "drop (pos p) (buf p) = REGEX_PARSER_ESCAPE # c # rest"
  shows "\<exists>p'. parse_regex_range_bound p = Return (Some c) p'
           \<and> pos p' = pos p + 2 \<and> same_but_position p p'"
proof -
  note e = drop_eq_ConsD [OF assms]
  from e have d2: "drop (Suc (pos p)) (buf p) = c # rest" by simp
  note e2 = drop_eq_ConsD [OF d2]
  from e e2 show ?thesis
    by (auto simp: parse_regex_range_bound_def parser_has_more_def parser_peek_def
          parser_skip_def same_but_position_def)
qed

subsection \<open>More fuel does not change a result\<close>

lemma fuel_le_refl [simp]: "fuel_le a a"
  by (simp add: fuel_le_def)

lemma fuel_le_OutOfFuel [simp]: "fuel_le OutOfFuel a"
  by (simp add: fuel_le_def)

lemma fuel_le_and_then:
  "fuel_le m m' \<Longrightarrow> (\<And>x p. fuel_le (k x p) (k' x p)) \<Longrightarrow> fuel_le (and_then m k) (and_then m' k')"
proof (cases "m = OutOfFuel")
  case True
  then show ?thesis by simp
next
  case False
  assume "fuel_le m m'" and k: "\<And>x p. fuel_le (k x p) (k' x p)"
  with False have "m' = m" by (simp add: fuel_le_def)
  then show ?thesis using k by (cases m) simp_all
qed

lemma fuel_le_if:
  "(c \<Longrightarrow> fuel_le a a') \<Longrightarrow> (\<not> c \<Longrightarrow> fuel_le b b') \<Longrightarrow> fuel_le (if c then a else b) (if c then a' else b')"
  by simp

lemma fuel_le_case_option:
  "fuel_le a a' \<Longrightarrow> (\<And>x. fuel_le (b x) (b' x)) \<Longrightarrow>
   fuel_le (case v of None \<Rightarrow> a | Some x \<Rightarrow> b x) (case v of None \<Rightarrow> a' | Some x \<Rightarrow> b' x)"
  by (cases v) auto

lemma fuel_le_case_prod:
  "(\<And>x y. fuel_le (a x y) (a' x y)) \<Longrightarrow>
   fuel_le (case v of (x, y) \<Rightarrow> a x y) (case v of (x, y) \<Rightarrow> a' x y)"
  by (cases v) auto

lemmas fuel_le_intros = fuel_le_and_then fuel_le_if fuel_le_case_option fuel_le_case_prod fuel_le_refl

lemma parse_literal_loop_mono:
  "fuel_le (parse_literal_loop n tree escaped p) (parse_literal_loop (Suc n) tree escaped p)"
proof (induction n arbitrary: tree escaped p)
  case 0
  show ?case by simp
next
  case (Suc n)
  show ?case
    apply (subst parse_literal_loop.simps(2))
    apply (subst parse_literal_loop.simps(2))
    apply (intro fuel_le_intros Suc.IH)
    done
qed

lemma parse_literal_mono: "fuel_le (parse_literal n p) (parse_literal (Suc n) p)"
  unfolding parse_literal_def by (intro fuel_le_intros parse_literal_loop_mono)

lemma parse_regex_mono:
  "(\<forall>p. fuel_le (parse_regex_group n p) (parse_regex_group (Suc n) p))
   \<and> (\<forall>p. fuel_le (parse_regex_expression n p) (parse_regex_expression (Suc n) p))
   \<and> (\<forall>p. fuel_le (parse_regex_loop n p) (parse_regex_loop (Suc n) p))
   \<and> (\<forall>tree p. fuel_le (parse_regex_sequence_loop n tree p) (parse_regex_sequence_loop (Suc n) tree p))
   \<and> (\<forall>tree p. fuel_le (parse_regex_branch_loop n tree p) (parse_regex_branch_loop (Suc n) tree p))"
proof (induction n)
  case 0
  show ?case by simp
next
  case (Suc n)
  then have IH:
    "\<And>p. fuel_le (parse_regex_group n p) (parse_regex_group (Suc n) p)"
    "\<And>p. fuel_le (parse_regex_expression n p) (parse_regex_expression (Suc n) p)"
    "\<And>p. fuel_le (parse_regex_loop n p) (parse_regex_loop (Suc n) p)"
    "\<And>tree p. fuel_le (parse_regex_sequence_loop n tree p) (parse_regex_sequence_loop (Suc n) tree p)"
    "\<And>tree p. fuel_le (parse_regex_branch_loop n tree p) (parse_regex_branch_loop (Suc n) tree p)"
    by blast+
  have g: "fuel_le (parse_regex_group (Suc n) p) (parse_regex_group (Suc (Suc n)) p)" for p
    apply (subst parse_regex_group.simps(2))
    apply (subst parse_regex_group.simps(2))
    apply (intro fuel_le_intros IH)
    done
  have e: "fuel_le (parse_regex_expression (Suc n) p) (parse_regex_expression (Suc (Suc n)) p)" for p
    apply (subst parse_regex_expression.simps(2))
    apply (subst parse_regex_expression.simps(2))
    apply (intro fuel_le_intros IH parse_literal_mono)
    done
  have l: "fuel_le (parse_regex_loop (Suc n) p) (parse_regex_loop (Suc (Suc n)) p)" for p
    apply (subst parse_regex_loop.simps(2))
    apply (subst parse_regex_loop.simps(2))
    apply (intro fuel_le_intros IH)
    done
  have s: "fuel_le (parse_regex_sequence_loop (Suc n) tree p) (parse_regex_sequence_loop (Suc (Suc n)) tree p)" for tree p
    apply (subst parse_regex_sequence_loop.simps(2))
    apply (subst parse_regex_sequence_loop.simps(2))
    apply (intro fuel_le_intros IH)
    done
  have b: "fuel_le (parse_regex_branch_loop (Suc n) tree p) (parse_regex_branch_loop (Suc (Suc n)) tree p)" for tree p
    apply (subst parse_regex_branch_loop.simps(2))
    apply (subst parse_regex_branch_loop.simps(2))
    apply (intro fuel_le_intros IH)
    done
  from g e l s b show ?case by blast
qed


lemma fuel_le_trans: "fuel_le a b \<Longrightarrow> fuel_le b c \<Longrightarrow> fuel_le a c"
  by (auto simp: fuel_le_def)

lemma parse_regex_branch_loop_mono:
  "fuel_le (parse_regex_branch_loop n tree p) (parse_regex_branch_loop (Suc n) tree p)"
  using parse_regex_mono [of n] by blast

lemma parse_regex_statement_mono:
  "fuel_le (parse_regex_statement n p) (parse_regex_statement (Suc n) p)"
  unfolding parse_regex_statement_def parse_regex_branch_def
  by (intro fuel_le_intros parse_regex_branch_loop_mono)

lemma parse_symbol_mono: "fuel_le (parse_symbol n p) (parse_symbol (Suc n) p)"
  unfolding parse_symbol_def Let_def
  by (intro fuel_le_intros parse_regex_statement_mono)

lemma parse_regex_symbols_loop_mono:
  "fuel_le (parse_regex_symbols_loop n p) (parse_regex_symbols_loop (Suc n) p)"
proof (induction n arbitrary: p)
  case 0
  show ?case by simp
next
  case (Suc n)
  show ?case
    apply (subst parse_regex_symbols_loop.simps(2))
    apply (subst parse_regex_symbols_loop.simps(2))
    apply (intro fuel_le_intros Suc.IH parse_symbol_mono)
    done
qed

lemma parse_regex_symbols_mono:
  "fuel_le (parse_regex_symbols n budget file) (parse_regex_symbols (Suc n) budget file)"
  unfolding parse_regex_symbols_def
  by (intro fuel_le_intros parse_regex_symbols_loop_mono)

lemma parse_regex_nfa_mono:
  "fuel_le (parse_regex_nfa n budget file nfa) (parse_regex_nfa (Suc n) budget file nfa)"
  unfolding parse_regex_nfa_def
  by (intro fuel_le_intros parse_regex_symbols_mono)

lemma parse_regex_symbols_more_fuel:
  "parse_regex_symbols n budget file \<noteq> OutOfFuel \<Longrightarrow>
     parse_regex_symbols (n + k) budget file = parse_regex_symbols n budget file"
proof (induction k)
  case 0
  show ?case by simp
next
  case (Suc k)
  from parse_regex_symbols_mono [of "n + k" budget "file"] Suc show ?case
    by (simp add: fuel_le_def)
qed

lemma parse_regex_nfa_more_fuel:
  "parse_regex_nfa n budget file nfa \<noteq> OutOfFuel \<Longrightarrow>
     parse_regex_nfa (n + k) budget file nfa = parse_regex_nfa n budget file nfa"
proof (induction k)
  case 0
  show ?case by simp
next
  case (Suc k)
  from parse_regex_nfa_mono [of "n + k" budget "file" nfa] Suc show ?case
    by (simp add: fuel_le_def)
qed

lemma parse_literal_more_fuel:
  "parse_literal n p \<noteq> OutOfFuel \<Longrightarrow> parse_literal (n + k) p = parse_literal n p"
proof (induction k)
  case 0
  show ?case by simp
next
  case (Suc k)
  from parse_literal_mono [of "n + k" p] Suc show ?case
    by (simp add: fuel_le_def)
qed

subsection \<open>Destruction\<close>

lemma destroy_regex_node_frees_owned:
  "mset (destroy_regex_node node) = mset (map node_address (owned_nodes node))"
  by (induction node) simp_all

lemma destroy_regex_node_once:
  "distinct (map node_address (owned_nodes node)) \<Longrightarrow> distinct (destroy_regex_node node)"
  by (metis destroy_regex_node_frees_owned mset_eq_imp_distinct_iff)

lemma destroy_regex_symbols_frees_nothing: "destroy_regex_symbols syms = []"
  by (induction syms) (simp_all add: destroy_regex_symbol_def)

subsection \<open>The builder\<close>

lemma build_regex_range_nfa_literal:
  "build_regex_range_nfa unset_regex_nfa (Suc heap) (Range a (char_to_int c) (char_to_int c + 1)) first last'
     = Built 0 \<lparr>states = [\<lparr>lower = Some (int_to_char (char_to_int c)),
                             upper = Some (int_to_char (char_to_int c + 2)),
                             then_state = None, otherwise = None, end_symbol = Some (- 1)\<rparr>],
                nfa_size = 32, nfa_symbols = [], symbols_len = 0\<rparr> heap (Some 0) (Some 0)"
  by (simp add: add_regex_state_def unset_regex_nfa_def fresh_regex_state_def
        INITIAL_REGEX_NFA_BUFFER_SIZE_def add.commute)

lemma build_regex_nfa_from_node_Reference:
  "build_regex_nfa_from_node nfa heap (Reference a s) first last' = Built (- 1) nfa heap first last'"
  by simp

lemma parse_regex_nfa_sequence_undefined:
  "parse_regex_nfa 8 20 grammar_sequence unset_regex_nfa
     = Return Undefined
         \<lparr>buf = grammar_sequence, pos = 13, error = None, line = 1, col = 14,
          symbols =
            [\<lparr>name = ''a'', lexeme = False,
               expression = Some (Sequence 4 (Range 2 120 121) (Range 3 121 122))\<rparr>,
             \<lparr>name = ''b'', lexeme = False, expression = Some (Range 6 122 123)\<rparr>],
          heap_next = 7, heap_left = 13\<rparr>"
  by code_simp

lemma count_regex_symbols_eq: "count_regex_symbols syms = length syms - 1"
  by (induction syms rule: count_regex_symbols.induct) auto

lemma copy_regex_symbol_names_loop_names:
  "copy_regex_symbol_names_loop k syms heap = (Some names, heap') \<Longrightarrow>
     names = map name (take k syms)"
proof (induction k syms heap arbitrary: names heap' rule: copy_regex_symbol_names_loop.induct)
  case (1 ss heap)
  then show ?case by simp
next
  case (2 k heap)
  then show ?case by simp
next
  case (3 k s ss heap)
  then show ?case by (auto split: if_splits prod.splits option.splits)
qed

lemma copy_regex_symbol_names_butlast:
  "copy_regex_symbol_names nfa heap syms = Done 0 nfa1 heap1 \<Longrightarrow>
     nfa_symbols nfa1 = map name (butlast syms) \<and> symbols_len nfa1 = length syms - 1"
  by (auto simp: copy_regex_symbol_names_def Let_def count_regex_symbols_eq butlast_conv_take
           split: if_splits prod.splits option.splits
           dest!: copy_regex_symbol_names_loop_names)

lemma copy_regex_symbol_names_loop_last:
  "k \<le> length ss \<Longrightarrow>
     copy_regex_symbol_names_loop k (ss @ [s]) heap = copy_regex_symbol_names_loop k (ss @ [s']) heap"
proof (induction k "ss @ [s]" heap arbitrary: ss rule: copy_regex_symbol_names_loop.induct)
  case (1 heap)
  then show ?case by simp
next
  case (2 k heap)
  then show ?case by simp
next
  case (3 k x xs heap)
  then show ?case by (cases ss) auto
qed

lemma count_regex_symbols_snoc: "count_regex_symbols (ss @ [s]) = length ss"
  by (induction ss rule: count_regex_symbols.induct) auto

lemma parse_regex_nfa_loop_last:
  "parse_regex_nfa_loop (ss @ [s]) index start nfa heap
     = parse_regex_nfa_loop (ss @ [s']) index start nfa heap"
proof (induction ss arbitrary: index start nfa heap)
  case Nil
  show ?case by simp
next
  case (Cons x xs)
  show ?case
  proof (cases xs)
    case Nil
    then show ?thesis
      by (auto simp: Let_def split: nfa_result.splits prod.splits option.splits)
  next
    case (Cons y ys)
    with Cons.IH show ?thesis
      by (auto simp: Let_def split: nfa_result.splits prod.splits option.splits)
  qed
qed

lemma copy_regex_symbol_names_last:
  "copy_regex_symbol_names nfa heap (ss @ [s]) = copy_regex_symbol_names nfa heap (ss @ [s'])"
  using copy_regex_symbol_names_loop_last [of "length ss" ss s "heap - 1" s']
  by (simp add: copy_regex_symbol_names_def count_regex_symbols_snoc Let_def)

lemma parse_regex_nfa_symbols_last:
  "parse_regex_nfa_symbols (ss @ [s]) nfa heap = parse_regex_nfa_symbols (ss @ [s']) nfa heap"
  unfolding parse_regex_nfa_symbols_def
    copy_regex_symbol_names_last [of _ _ ss s s']
    parse_regex_nfa_loop_last [of ss s _ _ _ _ s']
  by (rule refl)

section \<open>The claims\<close>

text \<open>
  Claim C1: the matcher returns the best accept over all dispatch entries, the longest
  match first and the earlier symbol on a tie, and no match when no entry accepts,
  storing length and symbol on the matcher. In regex.c \<^verbatim>\<open>match_regex\<close> has the body
  \<^verbatim>\<open>return 0\<close>: for every matcher and every input it reports success and stores
  nothing. (\<^verbatim>\<open>match_regex_nfa\<close> of regex_nfa.c is not C: its condition
  \<^verbatim>\<open>pred == 0 ||\<close> lacks an operand.)
\<close>

theorem match_regex_stub: "match_regex m input = (0, m)"
  by (simp add: match_regex_def)

text \<open>
  Claim C2: a character \<open>c\<close> of a literal becomes a range node from \<open>c\<close> to \<open>c + 1\<close>,
  and the state built from it matches the byte \<open>c\<close> only, its exclusive upper bound
  being \<open>c + 1\<close>. The parser does produce that node, but \<^verbatim>\<open>build_regex_range_nfa\<close>
  stores \<^verbatim>\<open>end + 1\<close>: for the literal \<^verbatim>\<open>"a"\<close> the state has the lower bound 97 and
  the exclusive upper bound 99, so it takes the bytes \<^verbatim>\<open>a\<close> and \<^verbatim>\<open>b\<close>. The
  literal is parsed with any fuel from 3 on. In general (\<open>parse_literal_ranges\<close>) a
  literal without escape characters is parsed to sequences over one range from \<open>c\<close>
  to \<open>c + 1\<close> for every character \<open>c\<close>, and (\<open>build_regex_range_nfa_literal\<close>)
  the state of such a range has the upper bound \<open>c + 2\<close>.
\<close>

theorem literal_range_upper_bound:
  "parse_literal (3 + k) (read_regex_file 1 literal_a)
     = Return (Some (Range 0 97 98))
         \<lparr>buf = literal_a, pos = 3, error = None, line = 1, col = 4, symbols = [],
          heap_next = 1, heap_left = 0\<rparr>
   \<and> build_regex_range_nfa unset_regex_nfa 1 (Range 0 97 98) None None
     = Built 0 \<lparr>states = [\<lparr>lower = Some 97, upper = Some 99, then_state = None,
                             otherwise = None, end_symbol = Some (- 1)\<rparr>],
                nfa_size = 32, nfa_symbols = [], symbols_len = 0\<rparr> 0 (Some 0) (Some 0)"
proof -
  have "parse_literal 3 (read_regex_file 1 literal_a)
     = Return (Some (Range 0 97 98))
         \<lparr>buf = literal_a, pos = 3, error = None, line = 1, col = 4, symbols = [],
          heap_next = 1, heap_left = 0\<rparr>"
    by code_simp
  moreover have "build_regex_range_nfa unset_regex_nfa 1 (Range 0 97 98) None None
     = Built 0 \<lparr>states = [\<lparr>lower = Some 97, upper = Some 99, then_state = None,
                             otherwise = None, end_symbol = Some (- 1)\<rparr>],
                nfa_size = 32, nfa_symbols = [], symbols_len = 0\<rparr> 0 (Some 0) (Some 0)"
    by code_simp
  ultimately show ?thesis
    using parse_literal_more_fuel [of 3 "read_regex_file 1 literal_a" k] by simp
qed

text \<open>
  Claim C3: building the automaton of a complete table fails on resource exhaustion
  only, for every node type, references included. The switch of
  \<^verbatim>\<open>build_regex_nfa_from_node\<close> has no case for a reference: for the grammar
  \<^verbatim>\<open>a $b;b "x";\<close> \<^verbatim>\<open>parse_regex_nfa\<close> returns -1 with 12 of 20 allocations
  unused, whatever fuel from 8 on the parser is given. (For a sequence the builder
  returns 0 and leaves \<^verbatim>\<open>first\<close> and \<^verbatim>\<open>last\<close> unassigned:
  \<open>parse_regex_nfa_sequence_undefined\<close>.)
\<close>

theorem parse_regex_nfa_reference_fails:
  "parse_regex_nfa (8 + k) 20 grammar_reference unset_regex_nfa
     = Return (Done (- 1)
         \<lparr>states = [\<lparr>lower = Some 0, upper = Some 0, then_state = None, otherwise = None,
                      end_symbol = Some (- 1)\<rparr>],
          nfa_size = 32, nfa_symbols = [''a''], symbols_len = 1\<rparr> 12)
         \<lparr>buf = grammar_reference, pos = 11, error = None, line = 1, col = 12,
          symbols = reference_table, heap_next = 5, heap_left = 15\<rparr>"
proof -
  have "parse_regex_nfa 8 20 grammar_reference unset_regex_nfa
     = Return (Done (- 1)
         \<lparr>states = [\<lparr>lower = Some 0, upper = Some 0, then_state = None, otherwise = None,
                      end_symbol = Some (- 1)\<rparr>],
          nfa_size = 32, nfa_symbols = [''a''], symbols_len = 1\<rparr> 12)
         \<lparr>buf = grammar_reference, pos = 11, error = None, line = 1, col = 12,
          symbols = reference_table, heap_next = 5, heap_left = 15\<rparr>"
    by code_simp
  then show ?thesis
    using parse_regex_nfa_more_fuel [of 8 20 grammar_reference unset_regex_nfa k] by simp
qed

text \<open>
  Claim C4: the automaton has one dispatch entry for every lexeme symbol, in table
  order, and the last symbol is not left out. Both loops over the table run while
  \<^verbatim>\<open>s->next\<close> is not \<^verbatim>\<open>NULL\<close>: for the grammar \<^verbatim>\<open>@a "x";\<close>
  \<^verbatim>\<open>parse_regex_nfa\<close> returns 0 with no name, and with one state that was never
  written to and is linked to nothing, whatever fuel from 7 on the parser is given.
  By \<open>parse_regex_nfa_symbols_last\<close> the automaton of a table never depends on the
  last symbol of the table.
\<close>

theorem parse_regex_nfa_omits_last_symbol:
  "parse_regex_nfa (7 + k) 20 grammar_single_lexeme unset_regex_nfa
     = Return (Done 0
         \<lparr>states = [fresh_regex_state], nfa_size = 32, nfa_symbols = [], symbols_len = 0\<rparr> 16)
         \<lparr>buf = grammar_single_lexeme, pos = 7, error = None, line = 1, col = 8,
          symbols = single_lexeme_table, heap_next = 3, heap_left = 17\<rparr>"
proof -
  have "parse_regex_nfa 7 20 grammar_single_lexeme unset_regex_nfa
     = Return (Done 0
         \<lparr>states = [fresh_regex_state], nfa_size = 32, nfa_symbols = [], symbols_len = 0\<rparr> 16)
         \<lparr>buf = grammar_single_lexeme, pos = 7, error = None, line = 1, col = 8,
          symbols = single_lexeme_table, heap_next = 3, heap_left = 17\<rparr>"
    by code_simp
  then show ?thesis
    using parse_regex_nfa_more_fuel [of 7 20 grammar_single_lexeme unset_regex_nfa k] by simp
qed

text \<open>
  Claim C5: with an escape character inside a literal parsing terminates, and the
  character that follows is an ordinary one. \<^verbatim>\<open>parse_literal\<close> sets its flag at
  the escape character and does not skip it: on the grammar \<^verbatim>\<open>a "\"";\<close> the parser
  has not returned after any number of steps. By \<open>parse_literal_escape_no_node\<close> no
  literal with an escape character in it is ever parsed to a node, while
  \<^verbatim>\<open>parse_regex_range_bound\<close> does take the character after the escape character
  for the bound (\<open>parse_regex_range_bound_escape\<close>).
\<close>

theorem parse_regex_symbols_escape_diverges:
  "parse_regex_symbols n 20 grammar_escaped_quote = OutOfFuel"
proof -
  have "malloc (read_regex_file 20 grammar_escaped_quote) = (Some 0, escaped_quote_start)"
    by (simp add: malloc_def read_regex_file_def escaped_quote_start_def)
  then show ?thesis
    by (simp add: parse_regex_symbols_def parse_regex_symbols_loop_escaped_quote)
qed

text \<open>
  Claim C6: when the whole source has been parsed and a registered symbol has no
  expression, the completeness check fails and names such a symbol, and
  \<^verbatim>\<open>parse_regex_symbols\<close> returns \<^verbatim>\<open>NULL\<close>. Here \<open>p0\<close> is the parser once the
  table is allocated and \<open>p\<close> the parser when the loop over the source has ended.
\<close>

theorem parse_regex_symbols_undefined:
  assumes "malloc (read_regex_file budget file) = (Some a, p0)"
    and "parse_regex_symbols_loop n p0 = Return () p"
    and "\<exists>s \<in> set (symbols p). expression s = None"
  shows "parse_regex_symbols n budget file = Return None p
         \<and> (\<exists>s \<in> set (symbols p).
               expression s = None \<and> check_regex_symbols (symbols p) = Some (name s))"
  using assms check_regex_symbols_Some [of "symbols p"]
  by (auto simp: parse_regex_symbols_def)

theorem parse_regex_symbols_undefined_witness:
  "parse_regex_symbols 8 20 grammar_undefined = Return None undefined_parsed
   \<and> (\<exists>s \<in> set (symbols undefined_parsed).
         expression s = None \<and> check_regex_symbols (symbols undefined_parsed) = Some (name s))
   \<and> check_regex_symbols (symbols undefined_parsed) = Some ''b''"
proof -
  have h1: "malloc (read_regex_file 20 grammar_undefined)
            = (Some 0, read_regex_file 20 grammar_undefined\<lparr>heap_next := 1, heap_left := 19\<rparr>)"
    by (simp add: malloc_def read_regex_file_def)
  have h2: "parse_regex_symbols_loop 8
              (read_regex_file 20 grammar_undefined\<lparr>heap_next := 1, heap_left := 19\<rparr>)
            = Return () undefined_parsed"
    by code_simp
  have h3: "\<exists>s \<in> set (symbols undefined_parsed). expression s = None"
    by (simp add: undefined_parsed_def)
  have h4: "check_regex_symbols (symbols undefined_parsed) = Some ''b''"
    by (simp add: undefined_parsed_def)
  from parse_regex_symbols_undefined [OF h1 h2 h3] h4 show ?thesis
    by simp
qed

text \<open>
  Claim C7: a second definition of a symbol is rejected with the error
  \<^verbatim>\<open>multiple definitions for symbol\<close>, and the table, with the expression of the
  first definition, is left as it was. The parser stands before the definition: an
  optional lexeme marker, the name \<open>nm\<close>, and text that does not continue the name.
  A symbol of that name is registered and has an expression.
\<close>

theorem parse_symbol_duplicate:
  assumes inb: "pos p \<le> length (buf p)"
    and input: "drop (pos p) (buf p) = (if is_lex then [REGEX_PARSER_LEXEME] else []) @ nm @ rest"
    and ident: "\<forall>c \<in> set nm. is_identifier c"
    and stop: "rest = [] \<or> \<not> is_identifier (hd rest)"
    and nolex: "\<not> is_lex \<longrightarrow> nm @ rest \<noteq> [] \<and> hd (nm @ rest) \<noteq> REGEX_PARSER_LEXEME"
    and len: "length nm + 1 \<le> MAX_REGEX_SYMBOL_NAME_LENGTH"
    and reg: "\<exists>s \<in> set (symbols p). name s = nm"
    and defd: "\<forall>s \<in> set (symbols p). name s = nm \<longrightarrow> expression s \<noteq> None"
  shows "\<exists>p'. parse_symbol n p = Return (- 1) p'
           \<and> error p' = Some ''multiple definitions for symbol''
           \<and> symbols p' = symbols p"
proof -
  define p1 where "p1 = (if is_lex then p\<lparr>col := col p + 1, pos := pos p + 1\<rparr> else p)"
  have p1: "and_then (parser_peek p) (\<lambda>c p0.
         and_then (if c = REGEX_PARSER_LEXEME
                   then and_then (parser_skip p0) (\<lambda>u p1. Return True p1)
                   else Return False p0) f) = f is_lex p1"
      "pos p1 \<le> length (buf p1)" "drop (pos p1) (buf p1) = nm @ rest"
      "symbols p1 = symbols p" for f :: "bool \<Rightarrow> regex_parser \<Rightarrow> int outcome"
  proof -
    show "symbols p1 = symbols p" by (simp add: p1_def)
    show "and_then (parser_peek p) (\<lambda>c p0.
         and_then (if c = REGEX_PARSER_LEXEME
                   then and_then (parser_skip p0) (\<lambda>u p1. Return True p1)
                   else Return False p0) f) = f is_lex p1"
    proof (cases is_lex)
      case True
      with input have d: "drop (pos p) (buf p) = REGEX_PARSER_LEXEME # (nm @ rest)" by simp
      from drop_eq_ConsD [OF d] True show ?thesis
        by (simp add: parser_peek_def parser_skip_def is_newline_def p1_def)
    next
      case False
      with input nolex obtain c cs where d: "drop (pos p) (buf p) = c # cs"
        "c \<noteq> REGEX_PARSER_LEXEME"
        by (cases "nm @ rest") auto
      from drop_eq_ConsD [OF d(1)] d(2) False show ?thesis
        by (simp add: parser_peek_def p1_def)
    qed
    show "pos p1 \<le> length (buf p1)" "drop (pos p1) (buf p1) = nm @ rest"
    proof -
      have "pos p1 \<le> length (buf p1) \<and> drop (pos p1) (buf p1) = nm @ rest"
      proof (cases is_lex)
        case True
        with input have d: "drop (pos p) (buf p) = REGEX_PARSER_LEXEME # (nm @ rest)" by simp
        from drop_eq_ConsD [OF d] True show ?thesis by (simp add: p1_def)
      next
        case False
        with input inb show ?thesis by (simp add: p1_def)
      qed
      then show "pos p1 \<le> length (buf p1)" "drop (pos p1) (buf p1) = nm @ rest" by simp_all
    qed
  qed
  from parser_skip_while_run [OF p1(2) p1(3) ident stop]
  obtain p2 where p2: "parser_skip_while is_identifier p1 = Return () p2"
      "pos p2 = pos p1 + length nm" "same_but_position p1 p2"
    by blast
  have at: "parser_at p2 (pos p1) (length nm) = nm"
    using p2(3) p1(3) by (simp add: parser_at_def same_but_position_def)
  have syms: "symbols p2 = symbols p"
    using p2(3) p1(4) by (simp add: same_but_position_def)
  from reg syms have "lookup_regex_symbol (symbols p2) nm \<noteq> None"
    by (simp add: lookup_regex_symbol_None)
  then obtain i where i: "lookup_regex_symbol (symbols p2) nm = Some i"
    by blast
  from lookup_regex_symbol_Some [OF i]
  have "symbols p2 ! i \<in> set (symbols p2)" "name (symbols p2 ! i) = nm"
    by simp_all
  with defd syms have ex: "expression (symbols p2 ! i) \<noteq> None"
    by simp
  have "parse_symbol n p = Return (- 1) (parser_error p2 ''multiple definitions for symbol'')"
    unfolding parse_symbol_def p1(1)
    using p2 at i ex len
    by (simp add: parser_pos_def get_or_create_regex_symbol_def Let_def
          cong: and_then_weak_cong prod.case_cong_weak)
  with syms show ?thesis
    by (simp add: parser_error_def)
qed

theorem parse_symbol_duplicate_witness:
  "(\<exists>p'. parse_symbol 0 duplicate_second = Return (- 1) p'
        \<and> error p' = Some ''multiple definitions for symbol''
        \<and> symbols p' = symbols duplicate_second)
   \<and> parse_regex_symbols 8 20 grammar_duplicate
       = Return None (duplicate_second\<lparr>pos := 10, col := 11,
                          error := Some ''multiple definitions for symbol''\<rparr>)"
proof -
  have h1: "pos duplicate_second \<le> length (buf duplicate_second)"
    by (simp add: duplicate_second_def grammar_duplicate_def)
  have h2: "drop (pos duplicate_second) (buf duplicate_second)
            = (if True then [REGEX_PARSER_LEXEME] else []) @ ''a'' @
              (CHR '' '' # REGEX_PARSER_LITERAL # CHR ''y'' # REGEX_PARSER_LITERAL # '';'')"
    by (simp add: duplicate_second_def grammar_duplicate_def)
  have h3: "\<forall>c \<in> set ''a''. is_identifier c"
    by (simp add: is_identifier_def isalpha_def)
  have h4: "CHR '' '' # REGEX_PARSER_LITERAL # CHR ''y'' # REGEX_PARSER_LITERAL # '';'' = []
            \<or> \<not> is_identifier
                 (hd (CHR '' '' # REGEX_PARSER_LITERAL # CHR ''y'' # REGEX_PARSER_LITERAL # '';''))"
    by (simp add: is_identifier_def isalpha_def isdigit_def)
  have h5: "\<not> True \<longrightarrow>
              ''a'' @ (CHR '' '' # REGEX_PARSER_LITERAL # CHR ''y'' # REGEX_PARSER_LITERAL # '';'')
                \<noteq> []
              \<and> hd (''a'' @
                    (CHR '' '' # REGEX_PARSER_LITERAL # CHR ''y'' # REGEX_PARSER_LITERAL # '';''))
                  \<noteq> REGEX_PARSER_LEXEME"
    by simp
  have h6: "length ''a'' + 1 \<le> MAX_REGEX_SYMBOL_NAME_LENGTH"
    by (simp add: MAX_REGEX_SYMBOL_NAME_LENGTH_def)
  have h7: "\<exists>s \<in> set (symbols duplicate_second). name s = ''a''"
    by (simp add: duplicate_second_def)
  have h8: "\<forall>s \<in> set (symbols duplicate_second). name s = ''a'' \<longrightarrow> expression s \<noteq> None"
    by (simp add: duplicate_second_def)
  have e: "parse_regex_symbols 8 20 grammar_duplicate
           = Return None (duplicate_second\<lparr>pos := 10, col := 11,
                          error := Some ''multiple definitions for symbol''\<rparr>)"
    by code_simp
  from parse_symbol_duplicate [OF h1 h2 h3 h4 h5 h6 h7 h8, of 0] e show ?thesis
    by simp
qed

text \<open>
  Claim C8: \<^verbatim>\<open>get_or_create_regex_symbol\<close> returns the registered symbol whose name
  is, byte for byte, the requested one, and otherwise appends a new symbol without an
  expression, leaving the symbols before it in place. The name is the slice of
  \<open>name_len\<close> bytes of the buffer at \<open>name_start\<close>; it fits the name field of a
  symbol, and a new symbol is created when the allocation succeeds.
\<close>

theorem get_or_create_regex_symbol_spec:
  assumes len: "name_len + 1 \<le> MAX_REGEX_SYMBOL_NAME_LENGTH"
    and slice: "name_start + name_len \<le> length (buf p)"
  shows "((\<exists>s \<in> set (symbols p). name s = parser_at p name_start name_len) \<longrightarrow>
            (\<exists>i < length (symbols p).
               get_or_create_regex_symbol p name_start name_len = (Some i, p)
               \<and> name (symbols p ! i) = parser_at p name_start name_len))
       \<and> ((\<forall>s \<in> set (symbols p). name s \<noteq> parser_at p name_start name_len)
            \<and> 0 < heap_left p \<longrightarrow>
            (\<exists>p'. get_or_create_regex_symbol p name_start name_len
                     = (Some (length (symbols p)), p')
               \<and> symbols p' = symbols p @
                    [\<lparr>name = parser_copy_string p name_start name_len,
                      lexeme = False, expression = None\<rparr>]))"
proof (intro conjI impI)
  assume "\<exists>s \<in> set (symbols p). name s = parser_at p name_start name_len"
  then obtain i where i: "lookup_regex_symbol (symbols p) (parser_at p name_start name_len) = Some i"
    using lookup_regex_symbol_None [of "symbols p" "parser_at p name_start name_len"] by auto
  from lookup_regex_symbol_Some [OF i] i len
  show "\<exists>i < length (symbols p).
          get_or_create_regex_symbol p name_start name_len = (Some i, p)
          \<and> name (symbols p ! i) = parser_at p name_start name_len"
    by (auto simp: get_or_create_regex_symbol_def)
next
  assume a: "(\<forall>s \<in> set (symbols p). name s \<noteq> parser_at p name_start name_len) \<and> 0 < heap_left p"
  then have "lookup_regex_symbol (symbols p) (parser_at p name_start name_len) = None"
    by (simp add: lookup_regex_symbol_None)
  with a len
  show "\<exists>p'. get_or_create_regex_symbol p name_start name_len = (Some (length (symbols p)), p')
          \<and> symbols p' = symbols p @
               [\<lparr>name = parser_copy_string p name_start name_len,
                 lexeme = False, expression = None\<rparr>]"
    by (simp add: get_or_create_regex_symbol_def malloc_def parser_copy_string_def parser_at_def)
qed

theorem get_or_create_regex_symbol_spec_witness:
  "get_or_create_regex_symbol lookup_example 0 1 = (Some 0, lookup_example)
   \<and> fst (get_or_create_regex_symbol lookup_example 1 1) = Some 1
   \<and> map name (symbols (snd (get_or_create_regex_symbol lookup_example 1 1))) = [''a'', ''A'']"
proof -
  have h1: "(1::nat) + 1 \<le> MAX_REGEX_SYMBOL_NAME_LENGTH"
    by (simp add: MAX_REGEX_SYMBOL_NAME_LENGTH_def)
  have h2: "0 + 1 \<le> length (buf lookup_example)" "1 + 1 \<le> length (buf lookup_example)"
    by (simp_all add: lookup_example_def)
  have a: "parser_at lookup_example 0 1 = ''a''" "parser_at lookup_example 1 1 = ''A''" "parser_copy_string lookup_example 1 1 = ''A''"
    by (simp_all add: parser_at_def parser_copy_string_def lookup_example_def)
  from get_or_create_regex_symbol_spec [OF h1 h2(1)] a
  have 1: "get_or_create_regex_symbol lookup_example 0 1 = (Some 0, lookup_example)"
    by (auto simp: lookup_example_def)
  from get_or_create_regex_symbol_spec [OF h1 h2(2)] a
  have 2: "\<exists>p'. get_or_create_regex_symbol lookup_example 1 1 = (Some 1, p') \<and> symbols p' = symbols lookup_example @ [\<lparr>name = ''A'', lexeme = False, expression = None\<rparr>]"
    by (auto simp: lookup_example_def)
  from 1 2 show ?thesis by (auto simp: lookup_example_def)
qed

text \<open>
  Claim C9: destroying a forest of expression trees frees every node exactly once
  through the edge that owns it and follows no reference. \<^verbatim>\<open>destroy_regex_node\<close>
  does so for one tree (\<open>destroy_regex_node_frees_owned\<close>), but
  \<^verbatim>\<open>destroy_regex_symbols\<close> calls \<^verbatim>\<open>destroy_regex_symbol\<close>, whose body is an
  assertion: for the table of \<^verbatim>\<open>@a "x";\<close> nothing is freed, while the node of the
  symbol is at address 2 and \<^verbatim>\<open>destroy_regex_node\<close> would free it.
\<close>

theorem destroy_regex_symbols_leaks:
  "parse_regex_symbols (7 + k) 10 grammar_single_lexeme
     = Return (Some single_lexeme_table)
         \<lparr>buf = grammar_single_lexeme, pos = 7, error = None, line = 1, col = 8,
          symbols = single_lexeme_table, heap_next = 3, heap_left = 7\<rparr>
   \<and> destroy_regex_symbols single_lexeme_table = []
   \<and> destroy_regex_node (Range 2 120 121) = [2]"
proof -
  have "parse_regex_symbols 7 10 grammar_single_lexeme
     = Return (Some single_lexeme_table)
         \<lparr>buf = grammar_single_lexeme, pos = 7, error = None, line = 1, col = 8,
          symbols = single_lexeme_table, heap_next = 3, heap_left = 7\<rparr>"
    by code_simp
  then show ?thesis
    using parse_regex_symbols_more_fuel [of 7 10 grammar_single_lexeme k]
    by (simp add: destroy_regex_symbols_frees_nothing)
qed

text \<open>
  Claim C10: the buffer is only read below its length, also when the source ends
  with whitespace. The loop of \<^verbatim>\<open>parse_regex_symbols\<close> skips whitespace and then
  peeks without asking whether a character is left: on \<^verbatim>\<open>a "x";\<close> followed by a
  newline, \<^verbatim>\<open>parser_peek\<close> is called at the end of the buffer, whatever fuel from
  8 on the parser is given. \<open>parse_regex_symbols_loop_trailing_whitespace\<close> is the
  same fact for every parser that has only whitespace left.
\<close>

theorem parse_regex_symbols_reads_past_end:
  "parse_regex_symbols (8 + k) 20 grammar_trailing_newline = ReadPastEnd"
proof -
  have "parse_regex_symbols 8 20 grammar_trailing_newline = ReadPastEnd"
    by code_simp
  then show ?thesis
    using parse_regex_symbols_more_fuel [of 8 20 grammar_trailing_newline k] by simp
qed

end
